theory Spec2Isabelle
  imports Main "HOL-Library.Word"
begin

section \<open>Data model of \<^verbatim>\<open>src/lzma/args.c\<close>\<close>

text \<open>
  The enumerations of the tool (declared in \<^verbatim>\<open>private.h\<close>) and the integer types of C.
  \<^verbatim>\<open>size_t\<close> is taken at 64 bits (LP64), as \<^verbatim>\<open>uint64_t\<close> and \<^verbatim>\<open>lzma_vli\<close> are.
\<close>

datatype tool_mode = MODE_COMPRESS | MODE_DECOMPRESS | MODE_TEST | MODE_LIST

datatype format_type = FORMAT_AUTO | FORMAT_XZ | FORMAT_LZMA | FORMAT_RAW

datatype lzma_check = LZMA_CHECK_NONE | LZMA_CHECK_CRC32 | LZMA_CHECK_CRC64 | LZMA_CHECK_SHA256

type_synonym size_t = "64 word"
type_synonym uint64_t = "64 word"
type_synonym lzma_vli = "64 word"

text \<open>
  Modelled from the spec: the filter identifiers and \<^verbatim>\<open>LZMA_BLOCK_FILTERS_MAX\<close> are macros
  of liblzma's headers, which are not part of \<^verbatim>\<open>args.c\<close>. The identifiers carry the values
  of the liblzma interface; the development only relies on their being pairwise
  distinct. The chain holds at most seven filters (the message of \<^verbatim>\<open>add_filter\<close> says so)
  and the array has one more slot for the terminator.
\<close>

definition LZMA_VLI_UNKNOWN :: lzma_vli where "LZMA_VLI_UNKNOWN = - 1"
definition LZMA_FILTER_SUBBLOCK :: lzma_vli where "LZMA_FILTER_SUBBLOCK = 0x01"
definition LZMA_FILTER_DELTA :: lzma_vli where "LZMA_FILTER_DELTA = 0x03"
definition LZMA_FILTER_X86 :: lzma_vli where "LZMA_FILTER_X86 = 0x04"
definition LZMA_FILTER_POWERPC :: lzma_vli where "LZMA_FILTER_POWERPC = 0x05"
definition LZMA_FILTER_IA64 :: lzma_vli where "LZMA_FILTER_IA64 = 0x06"
definition LZMA_FILTER_ARM :: lzma_vli where "LZMA_FILTER_ARM = 0x07"
definition LZMA_FILTER_ARMTHUMB :: lzma_vli where "LZMA_FILTER_ARMTHUMB = 0x08"
definition LZMA_FILTER_SPARC :: lzma_vli where "LZMA_FILTER_SPARC = 0x09"
definition LZMA_FILTER_LZMA1 :: lzma_vli where "LZMA_FILTER_LZMA1 = 0x4000000000000001"
definition LZMA_FILTER_LZMA2 :: lzma_vli where "LZMA_FILTER_LZMA2 = 0x21"

definition LZMA_BLOCK_FILTERS_MAX :: size_t where "LZMA_BLOCK_FILTERS_MAX = 7"

definition SIZE_MAX :: size_t where "SIZE_MAX = - 1"
definition INT_MAX :: nat where "INT_MAX = 2147483647"
definition INT_MIN :: int where "INT_MIN = - 2147483648"

text \<open>
  The \<^verbatim>\<open>options\<close> member of an \<^verbatim>\<open>lzma_filter\<close> is a pointer. It is \<^verbatim>\<open>NULL\<close>, or the address
  of the function-static \<^verbatim>\<open>opt_lzma\<close> of \<^verbatim>\<open>set_compression_settings\<close> (whose contents
  change when a preset is loaded again), or an object that one of the option parsers
  of \<^verbatim>\<open>options.c\<close> allocated and that nothing changes afterwards.
\<close>

datatype 'o opt_ptr = NULL | Addr_opt_lzma | Allocated 'o

record 'o lzma_filter =
  id_vli :: lzma_vli
  options :: "'o opt_ptr"

datatype FILE = Stdin | Opened string string

text \<open>Every way the process ends inside these functions: fatal errors, help and version.\<close>

datatype exit_reason =
    Too_many_filters
  | Bad_filter_options
  | Bad_number
  | Invalid_suffix
  | Show_version
  | Show_help
  | Unknown_format
  | Unknown_check
  | Files_twice
  | Fopen_failed
  | Try_help
  | Too_many_env_args
  | Internal_error
  | Only_LZMA1_supported
  | Memlimit_too_small_for_presets
  | Memlimit_too_small_for_filters
  | Assertion_failed
  | Null_dereference

text \<open>
  The global variables of the file, with \<^verbatim>\<open>verbosity\<close>, \<^verbatim>\<open>opt_memory\<close> and \<^verbatim>\<open>opt_threads\<close>,
  which \<^verbatim>\<open>args.c\<close> writes and other files define. \<^verbatim>\<open>opt_lzma\<close> is the static object of
  \<^verbatim>\<open>set_compression_settings\<close>; \<open>None\<close> stands for its contents before any preset is
  loaded.
\<close>

record 'o state =
  opt_mode :: tool_mode
  opt_format :: format_type
  opt_suffix :: "string option"
  opt_files_name :: "string option"
  opt_files_split :: char
  opt_files_file :: "FILE option"
  opt_stdout :: bool
  opt_force :: bool
  opt_keep_original :: bool
  opt_preserve_name :: bool
  opt_check :: lzma_check
  opt_filters :: "'o lzma_filter list"
  preset_number :: size_t
  preset_default :: bool
  filter_count :: size_t
  format_compress_auto :: format_type
  opt_lzma :: "'o option"
  verbosity :: int
  opt_memory :: size_t
  opt_threads :: size_t

text \<open>
  What \<^verbatim>\<open>args.c\<close> calls and does not define: the verbosity bounds of \<^verbatim>\<open>private.h\<close>, the
  number and filter option parsers, \<^verbatim>\<open>fopen\<close>, \<^verbatim>\<open>getopt_long\<close>, \<^verbatim>\<open>str_filename\<close> and liblzma's
  preset table and memory cost models. A parser that ends the process returns \<open>None\<close>.
  \<open>getopt_long\<close> stands for the whole run of calls over one argument vector (a list of
  pointers, \<open>None\<close> for \<^verbatim>\<open>NULL\<close>): the pairs of return value and \<^verbatim>\<open>optarg\<close> it hands out
  before it returns \<open>-1\<close>, and the vector left at \<^verbatim>\<open>argv + optind\<close>. The cost models see
  the chain up to its terminator, every options pointer dereferenced.
\<close>

record 'o ext =
  V_SILENT :: int
  V_DEBUG :: int
  str_to_uint64 :: "string \<Rightarrow> string \<Rightarrow> uint64_t \<Rightarrow> uint64_t \<Rightarrow> uint64_t option"
  parse_options_subblock :: "string option \<Rightarrow> 'o option"
  parse_options_delta :: "string option \<Rightarrow> 'o option"
  parse_options_lzma :: "string option \<Rightarrow> 'o option"
  fopen :: "string \<Rightarrow> string \<Rightarrow> FILE option"
  getopt_long :: "nat \<Rightarrow> string option list \<Rightarrow> (int \<times> string option) list \<times> string option list"
  str_filename :: "string option \<Rightarrow> string option"
  lzma_lzma_preset :: "size_t \<Rightarrow> 'o option"
  lzma_memusage_encoder :: "(lzma_vli \<times> 'o option) list \<Rightarrow> uint64_t"
  lzma_memusage_decoder :: "(lzma_vli \<times> 'o option) list \<Rightarrow> uint64_t"

text \<open>The initial values of the globals (lines 28--57); the three externs are given.\<close>

definition init_state :: "int \<Rightarrow> size_t \<Rightarrow> size_t \<Rightarrow> 'o state" where
  "init_state v mem thr =
     \<lparr> opt_mode = MODE_COMPRESS,
       opt_format = FORMAT_AUTO,
       opt_suffix = None,
       opt_files_name = None,
       opt_files_split = CHR 0x00,
       opt_files_file = None,
       opt_stdout = False,
       opt_force = False,
       opt_keep_original = False,
       opt_preserve_name = False,
       opt_check = LZMA_CHECK_CRC64,
       opt_filters = replicate 8 \<lparr> id_vli = 0, options = NULL \<rparr>,
       preset_number = 7,
       preset_default = True,
       filter_count = 0,
       format_compress_auto = FORMAT_XZ,
       opt_lzma = None,
       verbosity = v,
       opt_memory = mem,
       opt_threads = thr \<rparr>"

section \<open>The filter chain builder and the flag interpreter\<close>

text \<open>The option codes of lines 60--74, and a character as \<^verbatim>\<open>getopt_long\<close> returns it.\<close>

definition OPT_SUBBLOCK :: int where "OPT_SUBBLOCK = INT_MIN"
definition OPT_X86 :: int where "OPT_X86 = INT_MIN + 1"
definition OPT_POWERPC :: int where "OPT_POWERPC = INT_MIN + 2"
definition OPT_IA64 :: int where "OPT_IA64 = INT_MIN + 3"
definition OPT_ARM :: int where "OPT_ARM = INT_MIN + 4"
definition OPT_ARMTHUMB :: int where "OPT_ARMTHUMB = INT_MIN + 5"
definition OPT_SPARC :: int where "OPT_SPARC = INT_MIN + 6"
definition OPT_DELTA :: int where "OPT_DELTA = INT_MIN + 7"
definition OPT_LZMA1 :: int where "OPT_LZMA1 = INT_MIN + 8"
definition OPT_LZMA2 :: int where "OPT_LZMA2 = INT_MIN + 9"
definition OPT_FILES :: int where "OPT_FILES = INT_MIN + 10"
definition OPT_FILES0 :: int where "OPT_FILES0 = INT_MIN + 11"

definition code :: "char \<Rightarrow> int" where
  "code ch = of_char ch"

text \<open>
  \<^verbatim>\<open>add_filter\<close> (lines 130--166). The write goes to slot \<^verbatim>\<open>filter_count\<close>, which is below
  seven on every run that starts from \<open>init_state\<close>.
\<close>

definition add_filter :: "'o ext \<Rightarrow> lzma_vli \<Rightarrow> string option \<Rightarrow> 'o state \<Rightarrow> exit_reason + 'o state" where
  "add_filter e fid opt_str s =
     (if filter_count s = LZMA_BLOCK_FILTERS_MAX then Inl Too_many_filters
      else
        (case
           (if fid = LZMA_FILTER_SUBBLOCK then
              (case parse_options_subblock e opt_str of
                 None \<Rightarrow> Inl Bad_filter_options | Some ob \<Rightarrow> Inr (Allocated ob))
            else if fid = LZMA_FILTER_DELTA then
              (case parse_options_delta e opt_str of
                 None \<Rightarrow> Inl Bad_filter_options | Some ob \<Rightarrow> Inr (Allocated ob))
            else if fid = LZMA_FILTER_LZMA1 \<or> fid = LZMA_FILTER_LZMA2 then
              (case parse_options_lzma e opt_str of
                 None \<Rightarrow> Inl Bad_filter_options | Some ob \<Rightarrow> Inr (Allocated ob))
            else if opt_str = None then Inr NULL
            else Inl Assertion_failed)
         of
           Inl x \<Rightarrow> Inl x
         | Inr p \<Rightarrow>
             Inr (s\<lparr> opt_filters :=
                        (opt_filters s)[unat (filter_count s) := \<lparr> id_vli = fid, options = p \<rparr>],
                      filter_count := filter_count s + 1,
                      preset_default := False \<rparr>)))"

text \<open>The tables of \<^verbatim>\<open>--format\<close> and \<^verbatim>\<open>--check\<close> (lines 327--335 and 356--361), searched from the top.\<close>

definition format_types :: "(string \<times> format_type) list" where
  "format_types =
     [(''auto'', FORMAT_AUTO), (''xz'', FORMAT_XZ), (''lzma'', FORMAT_LZMA),
      (''alone'', FORMAT_LZMA), (''raw'', FORMAT_RAW)]"

definition check_types :: "(string \<times> lzma_check) list" where
  "check_types =
     [(''none'', LZMA_CHECK_NONE), (''crc32'', LZMA_CHECK_CRC32),
      (''crc64'', LZMA_CHECK_CRC64), (''sha256'', LZMA_CHECK_SHA256)]"

text \<open>
  The two cases \<^verbatim>\<open>OPT_FILES\<close> and \<^verbatim>\<open>OPT_FILES0\<close> after the fall through (lines 382--404).
\<close>

definition files_case :: "'o ext \<Rightarrow> int \<Rightarrow> string option \<Rightarrow> 'o state \<Rightarrow> exit_reason + 'o state" where
  "files_case e c optarg s =
     (if opt_files_name s \<noteq> None then Inl Files_twice
      else
        (case optarg of
           None \<Rightarrow> Inr (s\<lparr> opt_files_name := Some ''(stdin)'', opt_files_file := Some Stdin \<rparr>)
         | Some a \<Rightarrow>
             (case fopen e a (if c = OPT_FILES then ''r'' else ''rb'') of
                None \<Rightarrow> Inl Fopen_failed
              | Some f \<Rightarrow> Inr (s\<lparr> opt_files_name := Some a, opt_files_file := Some f \<rparr>))))"

text \<open>
  The body of the loop of \<^verbatim>\<open>parse_real\<close> (lines 176--409): one value \<open>c\<close> of \<^verbatim>\<open>getopt_long\<close>
  with its \<^verbatim>\<open>optarg\<close>. An option that takes an argument always comes with one; a missing
  one would be a null pointer read.
\<close>

definition parse_real_case :: "'o ext \<Rightarrow> int \<times> string option \<Rightarrow> 'o state \<Rightarrow> exit_reason + 'o state" where
  "parse_real_case e x s =
     (let c = fst x; optarg = snd x in
      if code CHR ''1'' \<le> c \<and> c \<le> code CHR ''9'' then
        Inr (s\<lparr> preset_number := word_of_int (c - code CHR ''0''), preset_default := False \<rparr>)
      else if c = code CHR ''M'' then
        (case optarg of None \<Rightarrow> Inl Null_dereference
         | Some a \<Rightarrow>
             (case str_to_uint64 e ''memory'' a 1 SIZE_MAX of
                None \<Rightarrow> Inl Bad_number | Some n \<Rightarrow> Inr (s\<lparr> opt_memory := n \<rparr>)))
      else if c = code CHR ''N'' then Inr (s\<lparr> opt_preserve_name := True \<rparr>)
      else if c = code CHR ''S'' then
        (case optarg of None \<Rightarrow> Inl Null_dereference
         | Some a \<Rightarrow>
             if a = [] \<or> CHR ''/'' \<in> set a then Inl Invalid_suffix
             else Inr (s\<lparr> opt_suffix := Some a \<rparr>))
      else if c = code CHR ''T'' then
        (case optarg of None \<Rightarrow> Inl Null_dereference
         | Some a \<Rightarrow>
             (case str_to_uint64 e ''threads'' a 1 SIZE_MAX of
                None \<Rightarrow> Inl Bad_number | Some n \<Rightarrow> Inr (s\<lparr> opt_threads := n \<rparr>)))
      else if c = code CHR ''V'' then Inl Show_version
      else if c = code CHR ''c'' then Inr (s\<lparr> opt_stdout := True \<rparr>)
      else if c = code CHR ''d'' then Inr (s\<lparr> opt_mode := MODE_DECOMPRESS \<rparr>)
      else if c = code CHR ''f'' then Inr (s\<lparr> opt_force := True \<rparr>)
      else if c = code CHR ''h'' then Inl Show_help
      else if c = code CHR ''l'' then Inr (s\<lparr> opt_mode := MODE_LIST \<rparr>)
      else if c = code CHR ''k'' then Inr (s\<lparr> opt_keep_original := True \<rparr>)
      else if c = code CHR ''n'' then Inr (s\<lparr> opt_preserve_name := False \<rparr>)
      else if c = code CHR ''q'' then
        Inr (if verbosity s > V_SILENT e then s\<lparr> verbosity := verbosity s - 1 \<rparr> else s)
      else if c = code CHR ''t'' then Inr (s\<lparr> opt_mode := MODE_TEST \<rparr>)
      else if c = code CHR ''v'' then
        Inr (if verbosity s < V_DEBUG e then s\<lparr> verbosity := verbosity s + 1 \<rparr> else s)
      else if c = code CHR ''z'' then Inr (s\<lparr> opt_mode := MODE_COMPRESS \<rparr>)
      else if c = OPT_SUBBLOCK then add_filter e LZMA_FILTER_SUBBLOCK optarg s
      else if c = OPT_X86 then add_filter e LZMA_FILTER_X86 None s
      else if c = OPT_POWERPC then add_filter e LZMA_FILTER_POWERPC None s
      else if c = OPT_IA64 then add_filter e LZMA_FILTER_IA64 None s
      else if c = OPT_ARM then add_filter e LZMA_FILTER_ARM None s
      else if c = OPT_ARMTHUMB then add_filter e LZMA_FILTER_ARMTHUMB None s
      else if c = OPT_SPARC then add_filter e LZMA_FILTER_SPARC None s
      else if c = OPT_DELTA then add_filter e LZMA_FILTER_DELTA optarg s
      else if c = OPT_LZMA1 then add_filter e LZMA_FILTER_LZMA1 optarg s
      else if c = OPT_LZMA2 then add_filter e LZMA_FILTER_LZMA2 optarg s
      else if c = code CHR ''F'' then
        (case optarg of None \<Rightarrow> Inl Null_dereference
         | Some a \<Rightarrow>
             (case map_of format_types a of
                None \<Rightarrow> Inl Unknown_format | Some f \<Rightarrow> Inr (s\<lparr> opt_format := f \<rparr>)))
      else if c = code CHR ''C'' then
        (case optarg of None \<Rightarrow> Inl Null_dereference
         | Some a \<Rightarrow>
             (case map_of check_types a of
                None \<Rightarrow> Inl Unknown_check | Some k \<Rightarrow> Inr (s\<lparr> opt_check := k \<rparr>)))
      else if c = OPT_FILES then files_case e c optarg (s\<lparr> opt_files_split := CHR 0x0A \<rparr>)
      else if c = OPT_FILES0 then files_case e c optarg s
      else Inl Try_help)"

text \<open>
  The loop of \<^verbatim>\<open>parse_real\<close> over the values \<^verbatim>\<open>getopt_long\<close> hands out: it ends when the
  values are used up (\<^verbatim>\<open>getopt_long\<close> returns \<open>-1\<close>) or at the first case that exits.
\<close>

fun parse_real_loop :: "'o ext \<Rightarrow> (int \<times> string option) list \<Rightarrow> 'o state \<Rightarrow> exit_reason + 'o state" where
  "parse_real_loop e [] s = Inr s"
| "parse_real_loop e (x # xs) s =
     (case parse_real_case e x s of
        Inl r \<Rightarrow> Inl r
      | Inr s' \<Rightarrow> parse_real_loop e xs s')"

definition parse_real :: "'o ext \<Rightarrow> nat \<Rightarrow> string option list \<Rightarrow> 'o state \<Rightarrow> exit_reason + 'o state" where
  "parse_real e argc argv s = parse_real_loop e (fst (getopt_long e argc argv)) s"


section \<open>The environment variable\<close>

text \<open>\<^verbatim>\<open>isspace\<close> in the C locale: space, and the controls from tab to carriage return.\<close>

definition isspace :: "char \<Rightarrow> bool" where
  "isspace ch =
     (ch = CHR '' '' \<or> ch = CHR 0x09 \<or> ch = CHR 0x0A \<or> ch = CHR 0x0B \<or> ch = CHR 0x0C \<or> ch = CHR 0x0D)"

text \<open>A C string ends at its first zero byte.\<close>

definition c_str :: "string \<Rightarrow> string" where
  "c_str cs = takeWhile (\<lambda>ch. ch \<noteq> CHR 0x00) cs"

text \<open>
  The first loop of \<^verbatim>\<open>parse_environment\<close> (lines 426--440) over the characters that are
  left, with \<^verbatim>\<open>argc\<close> and \<^verbatim>\<open>prev_was_space\<close>.
\<close>

fun count_args :: "string \<Rightarrow> nat \<Rightarrow> bool \<Rightarrow> exit_reason + nat" where
  "count_args [] argc prev_was_space = Inr argc"
| "count_args (ch # cs) argc prev_was_space =
     (if isspace ch then count_args cs argc True
      else if prev_was_space then
        (if argc + 1 > INT_MAX then Inl Too_many_env_args
         else count_args cs (argc + 1) False)
      else count_args cs argc prev_was_space)"

text \<open>
  The second loop (lines 446--455). The pointer \<^verbatim>\<open>env + i\<close> is stored as the C string it points
  to: the characters of \<^verbatim>\<open>env\<close> from position \<open>i\<close> to the zero byte that ends \<^verbatim>\<open>env\<close>, for the
  loop writes no zero byte into \<^verbatim>\<open>env\<close>.
\<close>

fun fill_args :: "string \<Rightarrow> nat \<Rightarrow> bool \<Rightarrow> string option list \<Rightarrow> nat \<times> string option list" where
  "fill_args [] argc prev_was_space argv = (argc, argv)"
| "fill_args (ch # cs) argc prev_was_space argv =
     (if isspace ch then fill_args cs argc True argv
      else if prev_was_space then fill_args cs (argc + 1) False (argv[argc := Some (ch # cs)])
      else fill_args cs argc prev_was_space argv)"

text \<open>
  The argument vector \<^verbatim>\<open>parse_environment\<close> builds from the value of \<^verbatim>\<open>LZMA_OPT\<close> (lines
  423--455), with its final \<^verbatim>\<open>argc\<close>.
\<close>

definition environment_argv :: "string \<Rightarrow> string \<Rightarrow> exit_reason + nat \<times> string option list" where
  "environment_argv argv0 v =
     (let env = c_str v in
      case count_args env 1 True of
        Inl r \<Rightarrow> Inl r
      | Inr argc \<Rightarrow>
          Inr (fill_args env 1 True ((replicate (argc + 1) None)[0 := Some argv0, argc := None])))"

text \<open>\<^verbatim>\<open>parse_environment\<close> (lines 416--462); \<open>getenv\<close> is the value of \<^verbatim>\<open>LZMA_OPT\<close>, if set.\<close>

definition parse_environment :: "'o ext \<Rightarrow> string \<Rightarrow> string option \<Rightarrow> 'o state \<Rightarrow> exit_reason + 'o state" where
  "parse_environment e argv0 getenv s =
     (case getenv of
        None \<Rightarrow> Inr s
      | Some v \<Rightarrow>
          (case environment_argv argv0 v of
             Inl r \<Rightarrow> Inl r
           | Inr (argc, argv) \<Rightarrow> parse_real e argc argv s))"

text \<open>The values \<^verbatim>\<open>getopt_long\<close> hands out on the vector of the environment variable.\<close>

definition environment_flags :: "'o ext \<Rightarrow> string \<Rightarrow> string option \<Rightarrow> (int \<times> string option) list" where
  "environment_flags e argv0 getenv =
     (case getenv of
        None \<Rightarrow> []
      | Some v \<Rightarrow>
          (case environment_argv argv0 v of
             Inl r \<Rightarrow> []
           | Inr (argc, argv) \<Rightarrow> fst (getopt_long e argc argv)))"

section \<open>The compression settings resolver\<close>

text \<open>What liblzma reads through \<^verbatim>\<open>opt_filters\<close>: the entries before the terminator.\<close>

definition deref :: "'o state \<Rightarrow> 'o opt_ptr \<Rightarrow> 'o option" where
  "deref s p = (case p of NULL \<Rightarrow> None | Addr_opt_lzma \<Rightarrow> opt_lzma s | Allocated ob \<Rightarrow> Some ob)"

definition chain :: "'o state \<Rightarrow> (lzma_vli \<times> 'o option) list" where
  "chain s =
     map (\<lambda>f. (id_vli f, deref s (options f)))
       (takeWhile (\<lambda>f. id_vli f \<noteq> LZMA_VLI_UNKNOWN) (opt_filters s))"

text \<open>Lines 470--480: the chain of the preset, when no filter was given.\<close>

definition default_chain :: "'o ext \<Rightarrow> 'o state \<Rightarrow> exit_reason + 'o state" where
  "default_chain e s =
     (if filter_count s = 0 then
        (case lzma_lzma_preset e (preset_number s) of
           None \<Rightarrow> Inl Internal_error
         | Some ob \<Rightarrow>
             Inr (s\<lparr> opt_lzma := Some ob,
                      opt_filters := (opt_filters s)
                        [0 := \<lparr> id_vli = (if opt_format s = FORMAT_LZMA then LZMA_FILTER_LZMA1
                                           else LZMA_FILTER_LZMA2),
                                options = Addr_opt_lzma \<rparr>],
                      filter_count := 1 \<rparr>))
      else Inr s)"

text \<open>Line 483: the terminator.\<close>

definition terminate_chain :: "'o state \<Rightarrow> 'o state" where
  "terminate_chain s =
     s\<lparr> opt_filters := (opt_filters s)
          [unat (filter_count s) :=
             (opt_filters s ! unat (filter_count s))\<lparr> id_vli := LZMA_VLI_UNKNOWN \<rparr>] \<rparr>"

text \<open>Lines 487--492: the one chain the \<^verbatim>\<open>.lzma\<close> format takes.\<close>

definition check_format_lzma :: "'o state \<Rightarrow> exit_reason + 'o state" where
  "check_format_lzma s =
     (if opt_format s = FORMAT_LZMA
         \<and> (filter_count s \<noteq> 1 \<or> id_vli (opt_filters s ! 0) \<noteq> LZMA_FILTER_LZMA1)
      then Inl Only_LZMA1_supported
      else Inr s)"

text \<open>Lines 497--499: the first estimate.\<close>

definition memory_usage_of :: "'o ext \<Rightarrow> 'o state \<Rightarrow> uint64_t" where
  "memory_usage_of e s =
     (if opt_mode s = MODE_COMPRESS then lzma_memusage_encoder e (chain s)
      else lzma_memusage_decoder e (chain s))"

text \<open>
  The estimates of the chain of a preset: the identifier line 476 chooses, the first estimate
  (lines 497--499) at the level of the state, and the estimate of the loop (line 517) at a
  level \<open>l\<close>.
\<close>

definition default_id :: "'o state \<Rightarrow> lzma_vli" where
  "default_id s = (if opt_format s = FORMAT_LZMA then LZMA_FILTER_LZMA1 else LZMA_FILTER_LZMA2)"

definition first_usage :: "'o ext \<Rightarrow> 'o state \<Rightarrow> uint64_t" where
  "first_usage e s =
     (if opt_mode s = MODE_COMPRESS
      then lzma_memusage_encoder e [(default_id s, lzma_lzma_preset e (preset_number s))]
      else lzma_memusage_decoder e [(default_id s, lzma_lzma_preset e (preset_number s))])"

definition level_usage :: "'o ext \<Rightarrow> 'o state \<Rightarrow> size_t \<Rightarrow> uint64_t" where
  "level_usage e s l = lzma_memusage_encoder e [(default_id s, lzma_lzma_preset e l)]"

text \<open>
  Lines 504--518: the loop that lowers the preset, on the state and \<^verbatim>\<open>memory_usage\<close>.
  \<^verbatim>\<open>--preset_number\<close> is a subtraction on \<^verbatim>\<open>size_t\<close>; the loop is left at 1, so it runs at most
  as often as \<^verbatim>\<open>preset_number - 1\<close> says.
\<close>

function lower_preset :: "'o ext \<Rightarrow> 'o state \<Rightarrow> uint64_t \<Rightarrow> exit_reason + 'o state \<times> uint64_t" where
  "lower_preset e s memory_usage =
     (if memory_usage > opt_memory s then
        (if preset_number s = 1 then Inl Memlimit_too_small_for_presets
         else
           (case lzma_lzma_preset e (preset_number s - 1) of
              None \<Rightarrow> Inl Internal_error
            | Some ob \<Rightarrow>
                lower_preset e (s\<lparr> preset_number := preset_number s - 1, opt_lzma := Some ob \<rparr>)
                  (lzma_memusage_encoder e
                     (chain (s\<lparr> preset_number := preset_number s - 1, opt_lzma := Some ob \<rparr>)))))
      else Inr (s, memory_usage))"
  by pat_completeness auto
termination
proof (relation "measure (\<lambda>(e, s, m). unat (preset_number s - 1))")
  show "wf (measure (\<lambda>(e :: 'o ext, s :: 'o state, m :: uint64_t). unat (preset_number s - 1)))"
    by simp
next
  fix e :: "'o ext" and s :: "'o state" and memory_usage :: uint64_t and ob :: 'o
  assume "preset_number s \<noteq> 1"
  then have nz: "preset_number s - 1 \<noteq> 0"
    by simp
  from nz have "unat (preset_number s - 1 - 1) = unat (preset_number s - 1) - 1"
    by (rule unat_minus_one)
  moreover from nz have "0 < unat (preset_number s - 1)"
    by (simp add: unat_gt_0)
  ultimately have "unat (preset_number s - 1 - 1) < unat (preset_number s - 1)"
    by linarith
  then have "unat (preset_number s - 2) < unat (preset_number s - 1)"
    by simp
  then show "((e, s\<lparr> preset_number := preset_number s - 1, opt_lzma := Some ob \<rparr>,
               lzma_memusage_encoder e
                 (chain (s\<lparr> preset_number := preset_number s - 1, opt_lzma := Some ob \<rparr>))),
              (e, s, memory_usage))
             \<in> measure (\<lambda>(e, s, m). unat (preset_number s - 1))"
    by simp
qed

declare lower_preset.simps [simp del]

text \<open>Lines 503--531: the memory limit, for a default and for a given setup.\<close>

definition apply_memory_limit :: "'o ext \<Rightarrow> 'o state \<Rightarrow> uint64_t \<Rightarrow> exit_reason + 'o state \<times> uint64_t" where
  "apply_memory_limit e s memory_usage =
     (if preset_default s then lower_preset e s memory_usage
      else if memory_usage > opt_memory s then Inl Memlimit_too_small_for_filters
      else Inr (s, memory_usage))"

text \<open>Lines 535--541: the limit on the worker threads.\<close>

definition limit_threads :: "'o state \<Rightarrow> uint64_t \<Rightarrow> exit_reason + 'o state" where
  "limit_threads s memory_usage =
     (if \<not> memory_usage > 0 then Inl Assertion_failed
      else
        (let thread_limit = opt_memory s div memory_usage;
             thread_limit = (if thread_limit = 0 then 1 else thread_limit)
         in Inr (if opt_threads s > thread_limit then s\<lparr> opt_threads := thread_limit \<rparr> else s)))"

text \<open>
  \<^verbatim>\<open>set_compression_settings\<close> (lines 465--544) up to line 531, with the final
  \<^verbatim>\<open>memory_usage\<close>, and as a whole.
\<close>

definition settle_memory_usage :: "'o ext \<Rightarrow> 'o state \<Rightarrow> exit_reason + 'o state \<times> uint64_t" where
  "settle_memory_usage e s =
     (case default_chain e s of
        Inl r \<Rightarrow> Inl r
      | Inr s1 \<Rightarrow>
          (case check_format_lzma (terminate_chain s1) of
             Inl r \<Rightarrow> Inl r
           | Inr s2 \<Rightarrow> apply_memory_limit e s2 (memory_usage_of e s2)))"

definition set_compression_settings :: "'o ext \<Rightarrow> 'o state \<Rightarrow> exit_reason + 'o state" where
  "set_compression_settings e s =
     (case settle_memory_usage e s of
        Inl r \<Rightarrow> Inl r
      | Inr (s3, memory_usage) \<Rightarrow> limit_threads s3 memory_usage)"

section \<open>\<^verbatim>\<open>parse_args\<close>\<close>

text \<open>\<^verbatim>\<open>strstr(name, needle) != NULL\<close>.\<close>

fun strstr_found :: "string \<Rightarrow> string \<Rightarrow> bool" where
  "strstr_found [] needle = (needle = [])"
| "strstr_found (h # hs) needle =
     (take (length needle) (h # hs) = needle \<or> strstr_found hs needle)"

text \<open>Lines 550--566: how the program was called.\<close>

definition called_as :: "'o ext \<Rightarrow> string option list \<Rightarrow> 'o state \<Rightarrow> exit_reason + 'o state" where
  "called_as e argv s =
     (case argv of
        [] \<Rightarrow> Inl Null_dereference
      | a0 # _ \<Rightarrow>
          (case str_filename e a0 of
             None \<Rightarrow> Inr s
           | Some name \<Rightarrow>
               (let s1 = (if strstr_found name ''lz'' then s\<lparr> format_compress_auto := FORMAT_LZMA \<rparr>
                          else s)
                in Inr (if strstr_found name ''cat''
                        then s1\<lparr> opt_mode := MODE_DECOMPRESS, opt_stdout := True \<rparr>
                        else if strstr_found name ''un'' then s1\<lparr> opt_mode := MODE_DECOMPRESS \<rparr>
                        else s1))))"

text \<open>Lines 550--573: the name, then the flags of the environment, then those of the command line.\<close>

definition parse_args_flags ::
  "'o ext \<Rightarrow> string \<Rightarrow> string option \<Rightarrow> nat \<Rightarrow> string option list \<Rightarrow> 'o state \<Rightarrow> exit_reason + 'o state" where
  "parse_args_flags e argv0 getenv argc argv s =
     (case called_as e argv s of
        Inl r \<Rightarrow> Inl r
      | Inr s1 \<Rightarrow>
          (case parse_environment e argv0 getenv s1 of
             Inl r \<Rightarrow> Inl r
           | Inr s2 \<Rightarrow> parse_real e argc argv s2))"

text \<open>Lines 575--584: standard output and test mode keep the source file; the format of \<^verbatim>\<open>auto\<close>.\<close>

definition parse_args_adjust :: "'o state \<Rightarrow> 'o state" where
  "parse_args_adjust s =
     (let s1 = (if opt_stdout s \<or> opt_mode s = MODE_TEST
                then s\<lparr> opt_keep_original := True, opt_stdout := True \<rparr> else s)
      in if opt_mode s1 = MODE_COMPRESS \<and> opt_format s1 = FORMAT_AUTO
         then s1\<lparr> opt_format := format_compress_auto s1 \<rparr> else s1)"

text \<open>Lines 575--587: what follows the flags.\<close>

definition parse_args_settings :: "'o ext \<Rightarrow> 'o state \<Rightarrow> exit_reason + 'o state" where
  "parse_args_settings e s =
     (let s2 = parse_args_adjust s
      in if opt_mode s2 = MODE_COMPRESS \<or> opt_format s2 = FORMAT_RAW
         then set_compression_settings e s2
         else Inr s2)"

text \<open>Lines 589--596: the file names that are returned.\<close>

definition file_names :: "'o ext \<Rightarrow> nat \<Rightarrow> string option list \<Rightarrow> 'o state \<Rightarrow> string option list" where
  "file_names e argc argv s =
     (let rest = snd (getopt_long e argc argv) in
      if (case rest of [] \<Rightarrow> True | a # _ \<Rightarrow> a = None) \<and> opt_files_name s = None
      then [Some ''-'', None]
      else rest)"

definition parse_args ::
  "'o ext \<Rightarrow> string \<Rightarrow> string option \<Rightarrow> nat \<Rightarrow> string option list \<Rightarrow> 'o state
     \<Rightarrow> exit_reason + 'o state \<times> string option list" where
  "parse_args e argv0 getenv argc argv s =
     (case parse_args_flags e argv0 getenv argc argv s of
        Inl r \<Rightarrow> Inl r
      | Inr s1 \<Rightarrow>
          (case parse_args_settings e s1 of
             Inl r \<Rightarrow> Inl r
           | Inr s2 \<Rightarrow> Inr (s2, file_names e argc argv s2)))"


section \<open>The kinds of flags, and a sample of the external interface\<close>

text \<open>The values of \<^verbatim>\<open>getopt_long\<close> that are a preset flag (line 179) or a filter flag (lines 277--315).\<close>

definition is_preset_flag :: "int \<Rightarrow> bool" where
  "is_preset_flag c = (code CHR ''1'' \<le> c \<and> c \<le> code CHR ''9'')"

definition is_filter_flag :: "int \<Rightarrow> bool" where
  "is_filter_flag c =
     (c \<in> {OPT_SUBBLOCK, OPT_X86, OPT_POWERPC, OPT_IA64, OPT_ARM, OPT_ARMTHUMB, OPT_SPARC,
            OPT_DELTA, OPT_LZMA1, OPT_LZMA2})"

text \<open>
  One instance of the external interface, to run the functions on concrete inputs: decimal
  numbers, an argument parser for single flags with an attached argument (as in \<^verbatim>\<open>-Fraw\<close>)
  and four of the filter flags, presets 1 to 9 whose options are their level, and cost models that charge ten units
  (encoder) or one unit (decoder) per level.
\<close>

definition digit_value :: "char \<Rightarrow> nat" where
  "digit_value ch = of_char ch - 48"

definition sample_str_to_uint64 :: "string \<Rightarrow> string \<Rightarrow> uint64_t \<Rightarrow> uint64_t \<Rightarrow> uint64_t option" where
  "sample_str_to_uint64 name a lo hi =
     (if a \<noteq> [] \<and> list_all (\<lambda>ch. ch \<in> set ''0123456789'') a
      then (let n = foldl (\<lambda>acc ch. 10 * acc + digit_value ch) 0 a
            in if unat lo \<le> n \<and> n \<le> unat hi then Some (of_nat n) else None)
      else None)"

definition sample_long_opts :: "(string \<times> int) list" where
  "sample_long_opts =
     [(''x86'', OPT_X86), (''delta'', OPT_DELTA), (''lzma1'', OPT_LZMA1), (''lzma2'', OPT_LZMA2)]"

definition sample_flag :: "string option \<Rightarrow> (int \<times> string option) option" where
  "sample_flag a =
     (case a of
        Some (dash # ch # rest) \<Rightarrow>
          if dash \<noteq> CHR ''-'' then None
          else if ch = CHR ''-'' then
            (case map_of sample_long_opts rest of
               None \<Rightarrow> Some (code CHR ''?'', None) | Some c \<Rightarrow> Some (c, None))
          else Some (code ch, if ch \<in> set ''CFMST'' then Some rest else None)
      | _ \<Rightarrow> None)"

definition sample_getopt_long :: "nat \<Rightarrow> string option list \<Rightarrow> (int \<times> string option) list \<times> string option list" where
  "sample_getopt_long argc argv =
     (List.map_filter sample_flag (takeWhile (\<lambda>a. sample_flag a \<noteq> None) (drop 1 argv)),
      dropWhile (\<lambda>a. sample_flag a \<noteq> None) (drop 1 argv))"

definition sample_cost :: "nat \<Rightarrow> (lzma_vli \<times> nat option) list \<Rightarrow> uint64_t" where
  "sample_cost k fs = of_nat (k * sum_list (map (\<lambda>f. case snd f of None \<Rightarrow> 1 | Some n \<Rightarrow> n) fs))"

definition sample_ext :: "nat ext" where
  "sample_ext =
     \<lparr> V_SILENT = 0,
       V_DEBUG = 4,
       str_to_uint64 = sample_str_to_uint64,
       parse_options_subblock = (\<lambda>a. Some 1),
       parse_options_delta = (\<lambda>a. Some 1),
       parse_options_lzma = (\<lambda>a. Some 7),
       fopen = (\<lambda>path mode. Some (Opened path mode)),
       getopt_long = sample_getopt_long,
       str_filename = (\<lambda>a. a),
       lzma_lzma_preset = (\<lambda>level. if 1 \<le> level \<and> level \<le> 9 then Some (unat level) else None),
       lzma_memusage_encoder = sample_cost 10,
       lzma_memusage_decoder = sample_cost 1 \<rparr>"

section \<open>Evaluation and frame lemmas\<close>

lemmas sample_defs =
  sample_ext_def sample_cost_def sample_getopt_long_def sample_flag_def sample_long_opts_def
  sample_str_to_uint64_def digit_value_def List.map_filter_simps

lemmas run_defs =
  parse_args_def parse_args_flags_def called_as_def parse_environment_def parse_real_def
  parse_real_case_def code_def parse_args_settings_def parse_args_adjust_def file_names_def
  init_state_def environment_flags_def default_id_def first_usage_def level_usage_def
  set_compression_settings_def settle_memory_usage_def default_chain_def terminate_chain_def
  check_format_lzma_def memory_usage_of_def apply_memory_limit_def limit_threads_def
  chain_def deref_def lower_preset.simps environment_argv_def c_str_def isspace_def INT_MAX_def
  add_filter_def files_case_def format_types_def check_types_def

lemmas id_defs =
  LZMA_VLI_UNKNOWN_def LZMA_FILTER_SUBBLOCK_def LZMA_FILTER_DELTA_def LZMA_FILTER_X86_def
  LZMA_FILTER_POWERPC_def LZMA_FILTER_IA64_def LZMA_FILTER_ARM_def LZMA_FILTER_ARMTHUMB_def
  LZMA_FILTER_SPARC_def LZMA_FILTER_LZMA1_def LZMA_FILTER_LZMA2_def LZMA_BLOCK_FILTERS_MAX_def
  SIZE_MAX_def INT_MIN_def OPT_SUBBLOCK_def OPT_X86_def OPT_POWERPC_def OPT_IA64_def OPT_ARM_def
  OPT_ARMTHUMB_def OPT_SPARC_def OPT_DELTA_def OPT_LZMA1_def OPT_LZMA2_def OPT_FILES_def
  OPT_FILES0_def

lemma replicate_8: "replicate 8 x = [x, x, x, x, x, x, x, x]"
  by (simp add: numeral_eq_Suc)

text \<open>What the stages of \<^verbatim>\<open>set_compression_settings\<close> leave alone.\<close>

lemma lower_preset_frame:
  "lower_preset e s m = Inr (s', m') \<Longrightarrow>
     s' = s\<lparr> preset_number := preset_number s', opt_lzma := opt_lzma s' \<rparr>"
proof (induction e s m rule: lower_preset.induct)
  case (1 e s m)
  show ?case
  proof (cases "m > opt_memory s")
    case False
    with "1.prems" show ?thesis by (simp add: lower_preset.simps [of e s m])
  next
    case True
    note over = this
    show ?thesis
    proof (cases "preset_number s = 1")
      case True
      with over "1.prems" show ?thesis by (simp add: lower_preset.simps [of e s m])
    next
      case False
      note lvl = this
      show ?thesis
      proof (cases "lzma_lzma_preset e (preset_number s - 1)")
        case None
        with over lvl "1.prems" show ?thesis by (simp add: lower_preset.simps [of e s m])
      next
        case (Some ob)
        let ?t = "s\<lparr> preset_number := preset_number s - 1, opt_lzma := Some ob \<rparr>"
        from over lvl Some "1.prems"
        have run: "lower_preset e ?t (lzma_memusage_encoder e (chain ?t)) = Inr (s', m')"
          by (simp add: lower_preset.simps [of e s m])
        from "1.IH" [OF over lvl Some run]
        have "s' = ?t\<lparr> preset_number := preset_number s', opt_lzma := opt_lzma s' \<rparr>" .
        then show ?thesis by simp
      qed
    qed
  qed
qed

lemma settle_memory_usage_frame:
  assumes "settle_memory_usage e s = Inr (s', m)"
  shows "s' = s\<lparr> opt_filters := opt_filters s', filter_count := filter_count s',
                   preset_number := preset_number s', opt_lzma := opt_lzma s' \<rparr>"
proof -
  from assms obtain s1 where d: "default_chain e s = Inr s1"
    by (auto simp: settle_memory_usage_def split: sum.splits)
  from assms d obtain s2 where c: "check_format_lzma (terminate_chain s1) = Inr s2"
    by (auto simp: settle_memory_usage_def split: sum.splits)
  from assms d c have a: "apply_memory_limit e s2 (memory_usage_of e s2) = Inr (s', m)"
    by (simp add: settle_memory_usage_def)
  from d have f1: "s1 = s\<lparr> opt_filters := opt_filters s1, filter_count := filter_count s1,
                             opt_lzma := opt_lzma s1 \<rparr>"
    by (auto simp: default_chain_def split: if_splits option.splits)
  from c have f2: "s2 = s1\<lparr> opt_filters := opt_filters s2 \<rparr>"
    by (auto simp: check_format_lzma_def terminate_chain_def split: if_splits)
  from a have f3: "s' = s2\<lparr> preset_number := preset_number s', opt_lzma := opt_lzma s' \<rparr>"
    by (auto simp: apply_memory_limit_def split: if_splits dest: lower_preset_frame)
  have "s' = s\<lparr> opt_filters := opt_filters s2, filter_count := filter_count s1,
                  preset_number := preset_number s', opt_lzma := opt_lzma s' \<rparr>"
    by (subst f3, subst f2, subst f1) simp
  moreover have "opt_filters s' = opt_filters s2"
    by (subst f3) simp
  moreover have "filter_count s' = filter_count s1"
    by (subst f3, subst f2) simp
  ultimately show ?thesis by simp
qed

lemma limit_threads_frame:
  "limit_threads s m = Inr s' \<Longrightarrow> s' = s\<lparr> opt_threads := opt_threads s' \<rparr>"
  by (auto simp: limit_threads_def Let_def split: if_splits)

lemma set_compression_settings_frame:
  assumes "set_compression_settings e s = Inr s'"
  shows "s' = s\<lparr> opt_filters := opt_filters s', filter_count := filter_count s',
                   preset_number := preset_number s', opt_lzma := opt_lzma s',
                   opt_threads := opt_threads s' \<rparr>"
proof -
  from assms obtain s3 m where a: "settle_memory_usage e s = Inr (s3, m)"
    and b: "limit_threads s3 m = Inr s'"
    by (auto simp: set_compression_settings_def split: sum.splits)
  note f1 = settle_memory_usage_frame [OF a] and f2 = limit_threads_frame [OF b]
  have "s' = s\<lparr> opt_filters := opt_filters s3, filter_count := filter_count s3,
                  preset_number := preset_number s3, opt_lzma := opt_lzma s3,
                  opt_threads := opt_threads s' \<rparr>"
    by (subst f2, subst f1) simp
  moreover have "opt_filters s' = opt_filters s3" "filter_count s' = filter_count s3"
    "preset_number s' = preset_number s3" "opt_lzma s' = opt_lzma s3"
    by (subst f2, simp)+
  ultimately show ?thesis by simp
qed

lemma limit_threads_value:
  assumes "0 < U"
  shows "limit_threads s U = Inr (s\<lparr> opt_threads := min (opt_threads s) (max 1 (opt_memory s div U)) \<rparr>)"
proof -
  have m: "max 1 (opt_memory s div U) = (if opt_memory s div U = 0 then 1 else opt_memory s div U)"
    by (simp add: max_def word_le_nat_alt unat_eq_0 [symmetric])
  show ?thesis
    using assms unfolding m
    by (auto simp: limit_threads_def Let_def min_def not_less)
qed

text \<open>What \<^verbatim>\<open>add_filter\<close> and the \<^verbatim>\<open>--files\<close> cases leave alone.\<close>

lemma add_filter_frame:
  "add_filter e fid a s = Inr s' \<Longrightarrow>
     s' = s\<lparr> opt_filters := opt_filters s', filter_count := filter_count s + 1,
              preset_default := False \<rparr>"
  by (auto simp: add_filter_def split: if_splits sum.splits)

lemma add_filter_keeps:
  assumes "add_filter e fid a s = Inr s'"
  shows "verbosity s' = verbosity s" and "\<not> preset_default s'"
  by (subst add_filter_frame [OF assms], simp)+

lemma files_case_frame:
  "files_case e c a s = Inr s' \<Longrightarrow>
     s' = s\<lparr> opt_files_name := opt_files_name s', opt_files_file := opt_files_file s' \<rparr>"
  by (auto simp: files_case_def split: if_splits option.splits)

lemma files_case_keeps:
  assumes "files_case e c a s = Inr s'"
  shows "verbosity s' = verbosity s" and "preset_default s' = preset_default s"
    and "preset_number s' = preset_number s" and "filter_count s' = filter_count s"
  by (subst files_case_frame [OF assms], simp)+

lemma parse_real_case_verbosity:
  assumes "parse_real_case e x s = Inr s'"
    and "V_SILENT e \<le> verbosity s" and "verbosity s \<le> V_DEBUG e"
  shows "V_SILENT e \<le> verbosity s' \<and> verbosity s' \<le> V_DEBUG e"
  using assms
  by (auto simp: parse_real_case_def Let_def
      split: if_splits option.splits dest: add_filter_keeps(1) files_case_keeps(1))

section \<open>The thread limit\<close>

text \<open>
  C3: when the memory usage is settled at \<open>U > 0\<close>, \<^verbatim>\<open>set_compression_settings\<close> returns, and
  the thread count it leaves is the minimum of the requested count and of the larger of 1
  and the memory limit divided by \<open>U\<close> (as machine words and as numbers); it is never above
  the requested count, and a request of 1 stays 1.
\<close>

theorem thread_count_min_max:
  assumes "settle_memory_usage e s = Inr (s1, U)" and "0 < U"
  shows "\<exists>s'. set_compression_settings e s = Inr s'
           \<and> opt_threads s' = min (opt_threads s) (max 1 (opt_memory s div U))
           \<and> unat (opt_threads s') = min (unat (opt_threads s)) (max 1 (unat (opt_memory s) div unat U))
           \<and> opt_threads s' \<le> opt_threads s
           \<and> (opt_threads s = 1 \<longrightarrow> opt_threads s' = 1)"
proof -
  note f = settle_memory_usage_frame [OF assms(1)]
  have t: "opt_threads s1 = opt_threads s" and b: "opt_memory s1 = opt_memory s"
    by (subst f, simp)+
  let ?r = "min (opt_threads s) (max 1 (opt_memory s div U))"
  have run: "set_compression_settings e s = Inr (s1\<lparr> opt_threads := ?r \<rparr>)"
    using assms limit_threads_value [OF assms(2), of s1]
    by (simp add: set_compression_settings_def t b)
  have u: "unat ?r = min (unat (opt_threads s)) (max 1 (unat (opt_memory s) div unat U))"
    by (simp add: min_def max_def word_le_nat_alt unat_div)
  have one: "opt_threads s = 1 \<longrightarrow> ?r = 1"
    by (simp add: min_def max_def)
  show ?thesis
    using run u one by simp
qed

theorem thread_count_min_max_witness:
  "(0 :: uint64_t) < 70
   \<and> (\<exists>s'. set_compression_settings sample_ext (init_state 2 200 4) = Inr s' \<and> opt_threads s' = 2)"
proof -
  have "\<exists>s1. settle_memory_usage sample_ext (init_state 2 200 4) = Inr (s1, 70)"
    by (simp add: run_defs id_defs sample_defs replicate_8)
  then obtain s1 where h: "settle_memory_usage sample_ext (init_state 2 200 4) = Inr (s1, 70)" ..
  have p: "(0 :: uint64_t) < 70" by simp
  from thread_count_min_max [OF h p] show ?thesis
    by (auto simp: init_state_def)
qed

section \<open>Verbosity\<close>

lemma parse_real_loop_verbosity:
  assumes "parse_real_loop e opts s = Inr s'"
    and "V_SILENT e \<le> verbosity s" and "verbosity s \<le> V_DEBUG e"
  shows "V_SILENT e \<le> verbosity s' \<and> verbosity s' \<le> V_DEBUG e"
  using assms
proof (induction opts arbitrary: s)
  case Nil
  then show ?case by simp
next
  case (Cons x xs)
  from Cons.prems(1) obtain t where step: "parse_real_case e x s = Inr t"
    and rest: "parse_real_loop e xs t = Inr s'"
    by (auto split: sum.splits)
  from parse_real_case_verbosity [OF step Cons.prems(2,3)] Cons.IH [OF rest]
  show ?case by simp
qed

lemma quiet_case:
  "parse_real_case e (code CHR ''q'', a) s =
     Inr (if verbosity s > V_SILENT e then s\<lparr> verbosity := verbosity s - 1 \<rparr> else s)"
  by (simp add: parse_real_case_def code_def)

lemma verbose_case:
  "parse_real_case e (code CHR ''v'', a) s =
     Inr (if verbosity s < V_DEBUG e then s\<lparr> verbosity := verbosity s + 1 \<rparr> else s)"
  by (simp add: parse_real_case_def code_def)

lemma quiet_or_verbose_returns:
  assumes "\<forall>x\<in>set opts. fst x = code CHR ''q'' \<or> fst x = code CHR ''v''"
  shows "\<exists>s'. parse_real_loop e opts s = Inr s'"
  using assms
proof (induction opts arbitrary: s)
  case Nil
  then show ?case by simp
next
  case (Cons x xs)
  obtain c a where x: "x = (c, a)" by (cases x)
  from Cons.prems x have "c = code CHR ''q'' \<or> c = code CHR ''v''" by simp
  then obtain t where "parse_real_case e x s = Inr t"
    using x quiet_case [of e a s] verbose_case [of e a s] by auto
  moreover from Cons.prems have "\<exists>s'. parse_real_loop e xs t = Inr s'"
    by (intro Cons.IH) simp
  ultimately show ?case by simp
qed

lemma quiet_times:
  assumes "V_SILENT e \<le> verbosity s"
  shows "parse_real_loop e (replicate n (code CHR ''q'', a)) s =
           Inr (s\<lparr> verbosity := max (V_SILENT e) (verbosity s - int n) \<rparr>)"
  using assms
proof (induction n arbitrary: s)
  case 0
  then show ?case by (simp add: max_def)
next
  case (Suc n)
  show ?case
  proof (cases "verbosity s > V_SILENT e")
    case True
    let ?t = "s\<lparr> verbosity := verbosity s - 1 \<rparr>"
    from True have "V_SILENT e \<le> verbosity ?t" by simp
    from Suc.IH [OF this] True show ?thesis
      by (simp add: quiet_case max_def)
  next
    case False
    with Suc.prems have eq: "verbosity s = V_SILENT e" by simp
    from Suc.IH [OF Suc.prems] False eq show ?thesis
      by (simp add: quiet_case max_def)
  qed
qed

lemma verbose_times:
  assumes "verbosity s \<le> V_DEBUG e"
  shows "parse_real_loop e (replicate n (code CHR ''v'', a)) s =
           Inr (s\<lparr> verbosity := min (V_DEBUG e) (verbosity s + int n) \<rparr>)"
  using assms
proof (induction n arbitrary: s)
  case 0
  then show ?case by (simp add: min_def)
next
  case (Suc n)
  show ?case
  proof (cases "verbosity s < V_DEBUG e")
    case True
    let ?t = "s\<lparr> verbosity := verbosity s + 1 \<rparr>"
    from True have "verbosity ?t \<le> V_DEBUG e" by simp
    from Suc.IH [OF this] True show ?thesis
      by (simp add: verbose_case min_def)
  next
    case False
    with Suc.prems have eq: "verbosity s = V_DEBUG e" by simp
    from Suc.IH [OF Suc.prems] False eq show ?thesis
      by (simp add: verbose_case min_def)
  qed
qed

text \<open>
  C8: from a level between \<^verbatim>\<open>V_SILENT\<close> and \<^verbatim>\<open>V_DEBUG\<close>, whatever flags \<^verbatim>\<open>parse_real\<close> reads, the level
  it leaves is between the two again; a sequence of \<^verbatim>\<open>-q\<close> and \<^verbatim>\<open>-v\<close> alone always returns; and
  \<open>n\<close> times \<^verbatim>\<open>-q\<close> (or \<^verbatim>\<open>-v\<close>) lower (or raise) the level by \<open>n\<close>, stopping at \<^verbatim>\<open>V_SILENT\<close> (or
  at \<^verbatim>\<open>V_DEBUG\<close>).
\<close>

theorem verbosity_saturates:
  assumes "V_SILENT e \<le> verbosity s" and "verbosity s \<le> V_DEBUG e"
  shows "(\<forall>s'. parse_real_loop e opts s = Inr s'
            \<longrightarrow> V_SILENT e \<le> verbosity s' \<and> verbosity s' \<le> V_DEBUG e)
       \<and> ((\<forall>x\<in>set opts. fst x = code CHR ''q'' \<or> fst x = code CHR ''v'')
            \<longrightarrow> (\<exists>s'. parse_real_loop e opts s = Inr s'))
       \<and> parse_real_loop e (replicate n (code CHR ''q'', None)) s =
           Inr (s\<lparr> verbosity := max (V_SILENT e) (verbosity s - int n) \<rparr>)
       \<and> parse_real_loop e (replicate n (code CHR ''v'', None)) s =
           Inr (s\<lparr> verbosity := min (V_DEBUG e) (verbosity s + int n) \<rparr>)"
  using assms parse_real_loop_verbosity [of e opts s] quiet_or_verbose_returns [of opts e s]
    quiet_times [of e s n None] verbose_times [of s e n None]
  by blast

theorem verbosity_saturates_witness:
  "V_SILENT sample_ext \<le> verbosity (init_state 2 100 1 :: nat state)
   \<and> verbosity (init_state 2 100 1 :: nat state) \<le> V_DEBUG sample_ext
   \<and> parse_real_loop sample_ext (replicate 10 (code CHR ''q'', None)) (init_state 2 100 1) =
       Inr ((init_state 2 100 1)\<lparr> verbosity := 0 \<rparr>)
   \<and> parse_real_loop sample_ext (replicate 10 (code CHR ''v'', None)) (init_state 2 100 1) =
       Inr ((init_state 2 100 1)\<lparr> verbosity := 4 \<rparr>)"
proof -
  have lo: "V_SILENT sample_ext \<le> verbosity (init_state 2 100 1 :: nat state)"
    and hi: "verbosity (init_state 2 100 1 :: nat state) \<le> V_DEBUG sample_ext"
    by (simp_all add: sample_ext_def init_state_def)
  have v: "verbosity (init_state 2 100 1 :: nat state) = 2" "V_SILENT sample_ext = 0"
    "V_DEBUG sample_ext = 4"
    by (simp_all add: sample_ext_def init_state_def)
  from verbosity_saturates [OF lo hi, of "[]" 10] lo hi show ?thesis
    by (simp add: v)
qed

section \<open>Standard output and test mode\<close>

lemma parse_args_settings_keeps:
  assumes "parse_args_settings e s = Inr s'"
  shows "opt_stdout s' = opt_stdout (parse_args_adjust s)"
    and "opt_keep_original s' = opt_keep_original (parse_args_adjust s)"
    and "opt_mode s' = opt_mode (parse_args_adjust s)"
proof -
  have "s' = parse_args_adjust s \<or> set_compression_settings e (parse_args_adjust s) = Inr s'"
    using assms by (auto simp: parse_args_settings_def Let_def split: if_splits)
  then have "opt_stdout s' = opt_stdout (parse_args_adjust s)
      \<and> opt_keep_original s' = opt_keep_original (parse_args_adjust s)
      \<and> opt_mode s' = opt_mode (parse_args_adjust s)"
  proof
    assume "s' = parse_args_adjust s"
    then show ?thesis by simp
  next
    assume "set_compression_settings e (parse_args_adjust s) = Inr s'"
    from set_compression_settings_frame [OF this] show ?thesis
      by (elim ssubst) simp
  qed
  then show "opt_stdout s' = opt_stdout (parse_args_adjust s)"
    and "opt_keep_original s' = opt_keep_original (parse_args_adjust s)"
    and "opt_mode s' = opt_mode (parse_args_adjust s)"
    by simp_all
qed

text \<open>
  C9: when \<^verbatim>\<open>parse_args\<close> returns, the flags were read into a state \<open>s1\<close>, the mode is the one of
  \<open>s1\<close>, and if \<open>s1\<close> asks for standard output or its mode is test, then \<^verbatim>\<open>opt_keep_original\<close> and
  \<^verbatim>\<open>opt_stdout\<close> are both true at the end; otherwise both are as the flags left them.
\<close>

theorem stdout_or_test_keeps_original:
  assumes "parse_args e argv0 getenv argc argv s = Inr (s', files)"
  shows "\<exists>s1. parse_args_flags e argv0 getenv argc argv s = Inr s1
           \<and> opt_mode s' = opt_mode s1
           \<and> (opt_stdout s1 \<or> opt_mode s1 = MODE_TEST \<longrightarrow> opt_keep_original s' \<and> opt_stdout s')
           \<and> (\<not> (opt_stdout s1 \<or> opt_mode s1 = MODE_TEST)
                \<longrightarrow> opt_keep_original s' = opt_keep_original s1 \<and> \<not> opt_stdout s')"
proof -
  from assms obtain s1 where flags: "parse_args_flags e argv0 getenv argc argv s = Inr s1"
    and settings: "parse_args_settings e s1 = Inr s'"
    by (auto simp: parse_args_def split: sum.splits)
  note k = parse_args_settings_keeps [OF settings]
  have "opt_mode (parse_args_adjust s1) = opt_mode s1"
    and "opt_stdout s1 \<or> opt_mode s1 = MODE_TEST
           \<longrightarrow> opt_keep_original (parse_args_adjust s1) \<and> opt_stdout (parse_args_adjust s1)"
    and "\<not> (opt_stdout s1 \<or> opt_mode s1 = MODE_TEST)
           \<longrightarrow> opt_keep_original (parse_args_adjust s1) = opt_keep_original s1
               \<and> \<not> opt_stdout (parse_args_adjust s1)"
    by (simp_all add: parse_args_adjust_def Let_def)
  with flags k show ?thesis by simp
qed

theorem stdout_or_test_keeps_original_witness:
  "parse_args sample_ext ''xz'' None 2 [Some ''xz'', Some ''-t'', None] (init_state 2 1000 4) =
     Inr ((init_state 2 1000 4)
            \<lparr> opt_mode := MODE_TEST, opt_keep_original := True, opt_stdout := True \<rparr>,
          [Some ''-'', None])
   \<and> parse_args_flags sample_ext ''xz'' None 2 [Some ''xz'', Some ''-t'', None] (init_state 2 1000 4) =
       Inr ((init_state 2 1000 4) \<lparr> opt_mode := MODE_TEST \<rparr>)
   \<and> \<not> opt_keep_original ((init_state 2 1000 4 :: nat state) \<lparr> opt_mode := MODE_TEST \<rparr>)
   \<and> \<not> opt_stdout ((init_state 2 1000 4 :: nat state) \<lparr> opt_mode := MODE_TEST \<rparr>)"
proof -
  have run: "parse_args sample_ext ''xz'' None 2 [Some ''xz'', Some ''-t'', None] (init_state 2 1000 4) =
     Inr ((init_state 2 1000 4)
            \<lparr> opt_mode := MODE_TEST, opt_keep_original := True, opt_stdout := True \<rparr>,
          [Some ''-'', None])"
    by (simp add: run_defs id_defs sample_defs replicate_8)
  have flags: "parse_args_flags sample_ext ''xz'' None 2 [Some ''xz'', Some ''-t'', None]
      (init_state 2 1000 4) = Inr ((init_state 2 1000 4) \<lparr> opt_mode := MODE_TEST \<rparr>)"
    by (simp add: run_defs id_defs sample_defs replicate_8)
  have before: "\<not> opt_keep_original ((init_state 2 1000 4 :: nat state) \<lparr> opt_mode := MODE_TEST \<rparr>)"
    "\<not> opt_stdout ((init_state 2 1000 4 :: nat state) \<lparr> opt_mode := MODE_TEST \<rparr>)"
    by (simp_all add: init_state_def)
  from stdout_or_test_keeps_original [OF run] run flags before show ?thesis
    by blast
qed

section \<open>What the flags do to the preset and the chain\<close>

lemma files_case_chain:
  assumes "files_case e c a s = Inr s'"
  shows "opt_filters s' = opt_filters s"
  by (subst files_case_frame [OF assms], simp)

lemma parse_real_case_not_filter:
  assumes "parse_real_case e x s = Inr s'" and "\<not> is_filter_flag (fst x)"
  shows "filter_count s' = filter_count s \<and> opt_filters s' = opt_filters s
           \<and> (preset_default s' \<longrightarrow> preset_default s)
           \<and> (is_preset_flag (fst x) \<longrightarrow> \<not> preset_default s')
           \<and> (\<not> is_preset_flag (fst x)
                \<longrightarrow> preset_number s' = preset_number s \<and> preset_default s' = preset_default s)"
  using assms
  by (auto simp: parse_real_case_def Let_def is_preset_flag_def is_filter_flag_def
      split: if_splits option.splits dest: files_case_keeps files_case_chain)

lemma parse_real_loop_not_filter:
  assumes "parse_real_loop e opts s = Inr s'"
    and "\<forall>x\<in>set opts. \<not> is_filter_flag (fst x)"
  shows "filter_count s' = filter_count s \<and> opt_filters s' = opt_filters s
           \<and> (preset_default s' \<longrightarrow> preset_default s)
           \<and> ((\<exists>x\<in>set opts. is_preset_flag (fst x)) \<longrightarrow> \<not> preset_default s')
           \<and> ((\<forall>x\<in>set opts. \<not> is_preset_flag (fst x))
                \<longrightarrow> preset_number s' = preset_number s \<and> preset_default s' = preset_default s)"
  using assms
proof (induction opts arbitrary: s)
  case Nil
  then show ?case by simp
next
  case (Cons x xs)
  from Cons.prems(1) obtain t where step: "parse_real_case e x s = Inr t"
    and rest: "parse_real_loop e xs t = Inr s'"
    by (auto split: sum.splits)
  from Cons.prems(2) have x: "\<not> is_filter_flag (fst x)"
    and xs: "\<forall>x\<in>set xs. \<not> is_filter_flag (fst x)"
    by simp_all
  from parse_real_case_not_filter [OF step x] Cons.IH [OF rest xs]
  show ?case by auto
qed

lemma called_as_keeps:
  assumes "called_as e argv s = Inr s'"
  shows "preset_number s' = preset_number s \<and> filter_count s' = filter_count s
           \<and> preset_default s' = preset_default s \<and> opt_filters s' = opt_filters s"
  using assms
  by (auto simp: called_as_def Let_def split: list.splits option.splits if_splits)

lemma parse_environment_flags:
  assumes "parse_environment e argv0 getenv s = Inr s'"
  shows "parse_real_loop e (environment_flags e argv0 getenv) s = Inr s'"
  using assms
  by (auto simp: parse_environment_def environment_flags_def parse_real_def
      split: option.splits sum.splits)

lemma parse_args_adjust_keeps:
  "preset_number (parse_args_adjust s) = preset_number s"
  "filter_count (parse_args_adjust s) = filter_count s"
  "preset_default (parse_args_adjust s) = preset_default s"
  "opt_filters (parse_args_adjust s) = opt_filters s"
  "opt_memory (parse_args_adjust s) = opt_memory s"
  by (simp_all add: parse_args_adjust_def Let_def)

section \<open>The chain of a preset\<close>

lemma default_id_not_unknown: "default_id s \<noteq> LZMA_VLI_UNKNOWN"
  by (simp add: default_id_def id_defs)

lemma array_two_slots:
  assumes "length (xs :: 'a list) = 8"
  obtains a b rest where "xs = a # b # rest"
  using assms by (auto simp: numeral_eq_Suc length_Suc_conv)

lemma default_chain_shape:
  assumes "filter_count s = 0" and "length (opt_filters s) = 8"
    and "lzma_lzma_preset e (preset_number s) = Some ob"
  shows "\<exists>s1. default_chain e s = Inr s1
           \<and> filter_count s1 = 1 \<and> opt_lzma s1 = Some ob
           \<and> preset_number s1 = preset_number s \<and> preset_default s1 = preset_default s
           \<and> opt_memory s1 = opt_memory s \<and> opt_mode s1 = opt_mode s
           \<and> opt_format s1 = opt_format s
           \<and> id_vli (opt_filters s1 ! 0) = default_id s
           \<and> id_vli (opt_filters (terminate_chain s1) ! 0) = default_id s
           \<and> chain (terminate_chain s1) = [(default_id s, Some ob)]
           \<and> (\<forall>q ob'. chain ((terminate_chain s1)\<lparr> preset_number := q, opt_lzma := ob' \<rparr>)
                  = [(default_id s, ob')])"
proof -
  from assms(2) obtain a b rest where xs: "opt_filters s = a # b # rest"
    by (rule array_two_slots)
  show ?thesis
    using assms(1,3) xs default_id_not_unknown [of s]
    by (simp add: default_chain_def terminate_chain_def chain_def deref_def default_id_def)
qed

section \<open>The preset of a run without preset or filter flags\<close>

text \<open>
  C10: from the initial values of the globals, when neither the flags of the environment nor
  those of the command line hold a preset flag or a filter flag, the state that reaches
  \<^verbatim>\<open>set_compression_settings\<close> has \<^verbatim>\<open>preset_number\<close> 7, no filter and \<^verbatim>\<open>preset_default\<close> set, and
  lines 470--483 build the one-filter chain with the options of preset 7 (or end with the
  internal error when liblzma has none).
\<close>

theorem default_preset_is_seven:
  assumes "parse_args_flags e argv0 getenv argc argv (init_state v mem thr) = Inr s1"
    and "\<forall>x\<in>set (environment_flags e argv0 getenv @ fst (getopt_long e argc argv)).
           \<not> is_preset_flag (fst x) \<and> \<not> is_filter_flag (fst x)"
  shows "preset_number (parse_args_adjust s1) = 7
       \<and> filter_count (parse_args_adjust s1) = 0
       \<and> preset_default (parse_args_adjust s1)
       \<and> (lzma_lzma_preset e 7 = None
            \<longrightarrow> set_compression_settings e (parse_args_adjust s1) = Inl Internal_error)
       \<and> (\<forall>ob. lzma_lzma_preset e 7 = Some ob
            \<longrightarrow> (\<exists>s2. default_chain e (parse_args_adjust s1) = Inr s2
                      \<and> chain (terminate_chain s2) = [(default_id (parse_args_adjust s1), Some ob)]))"
proof -
  from assms(1) obtain a b where name: "called_as e argv (init_state v mem thr) = Inr a"
    and env: "parse_environment e argv0 getenv a = Inr b"
    and cmd: "parse_real e argc argv b = Inr s1"
    by (auto simp: parse_args_flags_def split: sum.splits)
  from assms(2) have
    fe: "\<forall>x\<in>set (environment_flags e argv0 getenv). \<not> is_filter_flag (fst x)"
    and pe: "\<forall>x\<in>set (environment_flags e argv0 getenv). \<not> is_preset_flag (fst x)"
    and fc: "\<forall>x\<in>set (fst (getopt_long e argc argv)). \<not> is_filter_flag (fst x)"
    and pc: "\<forall>x\<in>set (fst (getopt_long e argc argv)). \<not> is_preset_flag (fst x)"
    by simp_all
  have i: "preset_number (init_state v mem thr :: 'a state) = 7"
    "filter_count (init_state v mem thr :: 'a state) = 0"
    "preset_default (init_state v mem thr :: 'a state)"
    "length (opt_filters (init_state v mem thr :: 'a state)) = 8"
    by (simp_all add: init_state_def)
  from cmd have cmd': "parse_real_loop e (fst (getopt_long e argc argv)) b = Inr s1"
    by (simp add: parse_real_def)
  from called_as_keeps [OF name] i
  have a: "preset_number a = 7" "filter_count a = 0" "preset_default a" "length (opt_filters a) = 8"
    by simp_all
  from parse_real_loop_not_filter [OF parse_environment_flags [OF env] fe] pe a
  have b: "preset_number b = 7" "filter_count b = 0" "preset_default b" "length (opt_filters b) = 8"
    by simp_all
  from parse_real_loop_not_filter [OF cmd' fc] pc b
  have s1: "preset_number s1 = 7" "filter_count s1 = 0" "preset_default s1"
    "length (opt_filters s1) = 8"
    by simp_all
  let ?t = "parse_args_adjust s1"
  from s1 have t: "preset_number ?t = 7" "filter_count ?t = 0" "preset_default ?t"
    "length (opt_filters ?t) = 8"
    by (simp_all add: parse_args_adjust_keeps)
  have none: "set_compression_settings e ?t = Inl Internal_error" if "lzma_lzma_preset e 7 = None"
    using that t by (simp add: set_compression_settings_def settle_memory_usage_def default_chain_def)
  have some: "\<exists>s2. default_chain e ?t = Inr s2 \<and> chain (terminate_chain s2) = [(default_id (parse_args_adjust s1), Some ob)]"
    if p: "lzma_lzma_preset e 7 = Some ob" for ob
  proof -
    from p t have p': "lzma_lzma_preset e (preset_number ?t) = Some ob" by simp
    from default_chain_shape [OF t(2) t(4) p'] show ?thesis
      by blast
  qed
  from t none some show ?thesis by blast
qed

theorem default_preset_is_seven_witness:
  "parse_args_flags sample_ext ''xz'' (Some ''-k'') 2 [Some ''xz'', Some ''-v'', None] (init_state 2 1000 4) =
     Inr ((init_state 2 1000 4)\<lparr> opt_keep_original := True, verbosity := 3 \<rparr>)
   \<and> environment_flags sample_ext ''xz'' (Some ''-k'') @
         fst (getopt_long sample_ext 2 [Some ''xz'', Some ''-v'', None]) =
       [(code CHR ''k'', None), (code CHR ''v'', None)]
   \<and> is_preset_flag (code CHR ''7'') \<and> is_filter_flag OPT_LZMA2
   \<and> \<not> is_preset_flag (code CHR ''k'') \<and> \<not> is_filter_flag (code CHR ''k'')
   \<and> \<not> is_preset_flag (code CHR ''v'') \<and> \<not> is_filter_flag (code CHR ''v'')
   \<and> lzma_lzma_preset sample_ext 7 = Some 7
   \<and> (\<exists>s2. default_chain sample_ext
               (parse_args_adjust ((init_state 2 1000 4)\<lparr> opt_keep_original := True, verbosity := 3 \<rparr>)) =
             Inr s2
           \<and> chain (terminate_chain s2) = [(LZMA_FILTER_LZMA2, Some 7)])"
proof -
  let ?s1 = "(init_state 2 1000 4 :: nat state)\<lparr> opt_keep_original := True, verbosity := 3 \<rparr>"
  have run: "parse_args_flags sample_ext ''xz'' (Some ''-k'') 2 [Some ''xz'', Some ''-v'', None]
      (init_state 2 1000 4) = Inr ?s1"
    by (simp add: run_defs id_defs sample_defs)
  have flags: "environment_flags sample_ext ''xz'' (Some ''-k'') @
         fst (getopt_long sample_ext 2 [Some ''xz'', Some ''-v'', None]) =
       [(code CHR ''k'', None), (code CHR ''v'', None)]"
    by (simp add: run_defs id_defs sample_defs)
  have kinds: "is_preset_flag (code CHR ''7'')" "is_filter_flag OPT_LZMA2"
    "\<not> is_preset_flag (code CHR ''k'')" "\<not> is_filter_flag (code CHR ''k'')"
    "\<not> is_preset_flag (code CHR ''v'')" "\<not> is_filter_flag (code CHR ''v'')"
    by (simp_all add: is_preset_flag_def is_filter_flag_def code_def id_defs)
  have none: "\<forall>x\<in>set (environment_flags sample_ext ''xz'' (Some ''-k'') @
         fst (getopt_long sample_ext 2 [Some ''xz'', Some ''-v'', None])).
       \<not> is_preset_flag (fst x) \<and> \<not> is_filter_flag (fst x)"
    unfolding flags using kinds by simp
  have p: "lzma_lzma_preset sample_ext 7 = Some 7"
    by (simp add: sample_ext_def)
  have i: "default_id (parse_args_adjust ?s1) = LZMA_FILTER_LZMA2"
    by (simp add: default_id_def parse_args_adjust_def init_state_def)
  from default_preset_is_seven [OF run none] p i run flags kinds show ?thesis
    by (simp only: simp_thms)
qed

section \<open>The chain of a preset and the preset flags\<close>

lemma first_estimate_of_default:
  assumes "filter_count s = 0" and "length (opt_filters s) = 8"
    and "lzma_lzma_preset e (preset_number s) = Some ob"
  shows "\<exists>s2. default_chain e s = Inr s2
           \<and> check_format_lzma (terminate_chain s2) = Inr (terminate_chain s2)
           \<and> memory_usage_of e (terminate_chain s2) = first_usage e s
           \<and> preset_default (terminate_chain s2) = preset_default s
           \<and> opt_memory (terminate_chain s2) = opt_memory s
           \<and> preset_number (terminate_chain s2) = preset_number s
           \<and> opt_format (terminate_chain s2) = opt_format s
           \<and> filter_count (terminate_chain s2) = 1
           \<and> opt_lzma (terminate_chain s2) = Some ob
           \<and> chain (terminate_chain s2) = [(default_id s, Some ob)]
           \<and> (\<forall>q ob'. chain ((terminate_chain s2)\<lparr> preset_number := q, opt_lzma := ob' \<rparr>)
                  = [(default_id s, ob')])"
proof -
  from default_chain_shape [OF assms] obtain s1 where d: "default_chain e s = Inr s1"
    and f: "filter_count s1 = 1" "opt_lzma s1 = Some ob" "preset_number s1 = preset_number s"
      "preset_default s1 = preset_default s" "opt_memory s1 = opt_memory s"
      "opt_mode s1 = opt_mode s" "opt_format s1 = opt_format s"
    and i: "id_vli (opt_filters (terminate_chain s1) ! 0) = default_id s"
    and c: "chain (terminate_chain s1) = [(default_id s, Some ob)]"
    and a: "\<forall>q ob'. chain ((terminate_chain s1)\<lparr> preset_number := q, opt_lzma := ob' \<rparr>)
                  = [(default_id s, ob')]"
    by blast
  have k: "filter_count (terminate_chain s1) = 1" "opt_format (terminate_chain s1) = opt_format s"
    "opt_mode (terminate_chain s1) = opt_mode s" "preset_default (terminate_chain s1) = preset_default s"
    "opt_memory (terminate_chain s1) = opt_memory s"
    "preset_number (terminate_chain s1) = preset_number s"
    "opt_lzma (terminate_chain s1) = Some ob"
    using f by (simp_all add: terminate_chain_def)
  have chk: "check_format_lzma (terminate_chain s1) = Inr (terminate_chain s1)"
    using k i by (simp add: check_format_lzma_def default_id_def)
  have mu: "memory_usage_of e (terminate_chain s1) = first_usage e s"
    using k c assms(3) by (simp add: memory_usage_of_def first_usage_def)
  from d chk mu k c a show ?thesis by blast
qed

text \<open>
  Lines 470--483 on any state without a filter: the chain of one filter, which passes the check
  of the \<^verbatim>\<open>.lzma\<close> format; \<^verbatim>\<open>preset_default\<close> is not written, here or later.
\<close>

lemma default_chain_of_state:
  assumes "filter_count s = 0" and "length (opt_filters s) = 8"
    and "lzma_lzma_preset e (preset_number s) = Some ob"
  shows "\<exists>s1. default_chain e s = Inr s1
           \<and> filter_count s1 = 1
           \<and> chain (terminate_chain s1) =
               [(if opt_format s = FORMAT_LZMA then LZMA_FILTER_LZMA1 else LZMA_FILTER_LZMA2, Some ob)]
           \<and> check_format_lzma (terminate_chain s1) = Inr (terminate_chain s1)
           \<and> preset_number (terminate_chain s1) = preset_number s
           \<and> preset_default (terminate_chain s1) = preset_default s
           \<and> (\<forall>s'. set_compression_settings e s = Inr s' \<longrightarrow> preset_default s' = preset_default s)"
proof -
  from default_chain_shape [OF assms] first_estimate_of_default [OF assms]
  obtain s1 where "default_chain e s = Inr s1" "filter_count s1 = 1"
    "chain (terminate_chain s1) = [(default_id s, Some ob)]"
    "check_format_lzma (terminate_chain s1) = Inr (terminate_chain s1)"
    "preset_number (terminate_chain s1) = preset_number s"
    "preset_default (terminate_chain s1) = preset_default s"
    by auto
  moreover have "preset_default s' = preset_default s" if "set_compression_settings e s = Inr s'" for s'
    by (subst set_compression_settings_frame [OF that]) simp
  ultimately show ?thesis
    by (auto simp: default_id_def)
qed

text \<open>
  The claim C5 as it stands fails after \<^verbatim>\<open>-9\<close>: the chain is the one of preset 9, and it is not
  marked as default.
\<close>

theorem default_mark_counterexample:
  "parse_args sample_ext ''xz'' None 2 [Some ''xz'', Some ''-9'', None] (init_state 2 1000 4) =
     Inr ((init_state 2 1000 4)
            \<lparr> opt_format := FORMAT_XZ,
              opt_filters :=
                (replicate 8 \<lparr> id_vli = 0, options = NULL \<rparr>)
                  [0 := \<lparr> id_vli = LZMA_FILTER_LZMA2, options = Addr_opt_lzma \<rparr>,
                   1 := \<lparr> id_vli = LZMA_VLI_UNKNOWN, options = NULL \<rparr>],
              preset_number := 9, preset_default := False, filter_count := 1,
              opt_lzma := Some 9 \<rparr>,
          [Some ''-'', None])
   \<and> chain ((init_state 2 1000 4)
            \<lparr> opt_format := FORMAT_XZ,
              opt_filters :=
                (replicate 8 \<lparr> id_vli = 0, options = NULL \<rparr>)
                  [0 := \<lparr> id_vli = LZMA_FILTER_LZMA2, options = Addr_opt_lzma \<rparr>,
                   1 := \<lparr> id_vli = LZMA_VLI_UNKNOWN, options = NULL \<rparr>],
              preset_number := 9, preset_default := False, filter_count := 1,
              opt_lzma := Some (9 :: nat) \<rparr>) = [(LZMA_FILTER_LZMA2, Some 9)]
   \<and> \<not> preset_default ((init_state 2 1000 4)
            \<lparr> opt_format := FORMAT_XZ,
              opt_filters :=
                (replicate 8 \<lparr> id_vli = 0, options = NULL \<rparr>)
                  [0 := \<lparr> id_vli = LZMA_FILTER_LZMA2, options = Addr_opt_lzma \<rparr>,
                   1 := \<lparr> id_vli = LZMA_VLI_UNKNOWN, options = NULL \<rparr>],
              preset_number := 9, preset_default := False, filter_count := 1,
              opt_lzma := Some (9 :: nat) \<rparr>)"
  by (simp add: run_defs id_defs sample_defs replicate_8)

section \<open>A preset flag and the memory limit\<close>

lemma preset_flag_case:
  assumes "is_preset_flag c"
  shows "parse_real_case e (c, a) t =
           Inr (t\<lparr> preset_number := word_of_int (c - code CHR ''0''), preset_default := False \<rparr>)"
  using assms by (simp add: parse_real_case_def is_preset_flag_def)

lemma given_setup_over_limit:
  assumes "\<not> preset_default s" and "filter_count s = 0" and "length (opt_filters s) = 8"
    and "lzma_lzma_preset e (preset_number s) = Some ob"
    and "opt_memory s < first_usage e s"
  shows "set_compression_settings e s = Inl Memlimit_too_small_for_filters"
proof -
  from first_estimate_of_default [OF assms(2,3,4)] obtain s2 where
    "default_chain e s = Inr s2"
    "check_format_lzma (terminate_chain s2) = Inr (terminate_chain s2)"
    "memory_usage_of e (terminate_chain s2) = first_usage e s"
    "preset_default (terminate_chain s2) = preset_default s"
    "opt_memory (terminate_chain s2) = opt_memory s"
    by blast
  with assms(1,5) show ?thesis
    by (simp add: set_compression_settings_def settle_memory_usage_def apply_memory_limit_def)
qed

text \<open>
  C1, as amended: a preset flag stores its digit and clears \<^verbatim>\<open>preset_default\<close>. After flags that
  hold a preset flag and no filter flag, the state is not a default one, and when the chain of
  the chosen level is estimated above the memory limit, \<^verbatim>\<open>set_compression_settings\<close> ends with
  the error of a given filter setup: it does not lower the preset.
\<close>

theorem preset_flag_is_not_default:
  assumes "parse_real_loop e opts s = Inr s1"
    and "\<exists>x\<in>set opts. is_preset_flag (fst x)"
    and "\<forall>x\<in>set opts. \<not> is_filter_flag (fst x)"
    and "filter_count s = 0" and "length (opt_filters s) = 8"
    and "lzma_lzma_preset e (preset_number s1) = Some ob"
    and "opt_memory s1 < first_usage e (parse_args_adjust s1)"
  shows "\<not> preset_default s1
       \<and> set_compression_settings e (parse_args_adjust s1) = Inl Memlimit_too_small_for_filters
       \<and> (\<forall>c a t. is_preset_flag c \<longrightarrow>
            parse_real_case e (c, a) t =
              Inr (t\<lparr> preset_number := word_of_int (c - code CHR ''0''), preset_default := False \<rparr>))"
proof -
  from parse_real_loop_not_filter [OF assms(1,3)] assms(2,4,5)
  have s1: "\<not> preset_default s1" "filter_count s1 = 0" "length (opt_filters s1) = 8"
    by auto
  let ?t = "parse_args_adjust s1"
  from s1 assms(6,7) have "\<not> preset_default ?t" "filter_count ?t = 0" "length (opt_filters ?t) = 8"
    "lzma_lzma_preset e (preset_number ?t) = Some ob" "opt_memory ?t < first_usage e ?t"
    by (simp_all add: parse_args_adjust_keeps)
  then have "set_compression_settings e ?t = Inl Memlimit_too_small_for_filters"
    by (rule given_setup_over_limit)
  with s1(1) preset_flag_case show ?thesis
    by blast
qed

theorem preset_flag_is_not_default_witness:
  "parse_real_loop sample_ext [(code CHR ''9'', None)] (init_state 2 50 4) =
     Inr ((init_state 2 50 4)\<lparr> preset_number := 9, preset_default := False \<rparr>)
   \<and> is_preset_flag (code CHR ''9'') \<and> \<not> is_filter_flag (code CHR ''9'')
   \<and> filter_count (init_state 2 50 4 :: nat state) = 0
   \<and> length (opt_filters (init_state 2 50 4 :: nat state)) = 8
   \<and> lzma_lzma_preset sample_ext 9 = Some 9
   \<and> first_usage sample_ext
         (parse_args_adjust ((init_state 2 50 4)\<lparr> preset_number := 9, preset_default := False \<rparr>)) = 90
   \<and> set_compression_settings sample_ext
         (parse_args_adjust ((init_state 2 50 4)\<lparr> preset_number := 9, preset_default := False \<rparr>)) =
       Inl Memlimit_too_small_for_filters"
proof -
  let ?s1 = "(init_state 2 50 4 :: nat state)\<lparr> preset_number := 9, preset_default := False \<rparr>"
  have run: "parse_real_loop sample_ext [(code CHR ''9'', None)] (init_state 2 50 4) = Inr ?s1"
    by (simp add: parse_real_case_def code_def init_state_def)
  have kinds: "is_preset_flag (code CHR ''9'')" "\<not> is_filter_flag (code CHR ''9'')"
    by (simp_all add: is_preset_flag_def is_filter_flag_def code_def id_defs)
  then have some: "\<exists>x\<in>set [(code CHR ''9'', None :: string option)]. is_preset_flag (fst x)"
    and none: "\<forall>x\<in>set [(code CHR ''9'', None :: string option)]. \<not> is_filter_flag (fst x)"
    by simp_all
  have i: "filter_count (init_state 2 50 4 :: nat state) = 0"
    "length (opt_filters (init_state 2 50 4 :: nat state)) = 8"
    by (simp_all add: init_state_def)
  have p: "lzma_lzma_preset sample_ext (preset_number ?s1) = Some 9" "lzma_lzma_preset sample_ext 9 = Some 9"
    by (simp_all add: sample_ext_def)
  have u: "first_usage sample_ext (parse_args_adjust ?s1) = 90"
    by (simp add: run_defs id_defs sample_defs)
  have m: "opt_memory ?s1 < first_usage sample_ext (parse_args_adjust ?s1)"
    unfolding u by (simp add: init_state_def)
  from preset_flag_is_not_default [OF run some none i p(1) m] run kinds i p(2) u show ?thesis
    by blast
qed

text \<open>
  The claim C1 as it stands fails for \<^verbatim>\<open>-9\<close> under a limit of 50: preset 9 is estimated at 90,
  presets 1 to 5 fit, and the run ends with the error instead of a lower preset.
\<close>

theorem preset_flag_counterexample:
  "fst (getopt_long sample_ext 2 [Some ''xz'', Some ''-9'', None]) = [(code CHR ''9'', None)]
   \<and> parse_args sample_ext ''xz'' None 2 [Some ''xz'', Some ''-9'', None] (init_state 2 50 4) =
       Inl Memlimit_too_small_for_filters
   \<and> level_usage sample_ext (init_state 2 50 4) 9 = 90
   \<and> level_usage sample_ext (init_state 2 50 4) 5 = 50"
  by (simp add: run_defs id_defs sample_defs replicate_8)

section \<open>Lowering the preset\<close>

lemma level_below:
  fixes p l :: size_t
  assumes "1 \<le> p"
  shows "p \<noteq> 1 \<Longrightarrow> 1 \<le> p - 1" and "p - 1 < p" and "l < p \<Longrightarrow> l < p - 1 \<or> l = p - 1"
    and "\<not> (p - 1 < l \<and> l < p)" and "l \<le> p - 1 \<Longrightarrow> l \<le> p"
  using assms by unat_arith+

lemma lower_preset_result:
  assumes "\<forall>q ob'. chain (s\<lparr> preset_number := q, opt_lzma := ob' \<rparr>) = [(fid, ob')]"
    and "\<forall>l. 1 \<le> l \<and> l \<le> preset_number s \<longrightarrow> lzma_lzma_preset e l \<noteq> None"
    and "1 \<le> preset_number s"
    and "opt_memory s < m"
  shows "case lower_preset e s m of
           Inl r \<Rightarrow>
             r = Memlimit_too_small_for_presets
             \<and> (\<forall>l. 1 \<le> l \<and> l < preset_number s
                   \<longrightarrow> opt_memory s < lzma_memusage_encoder e [(fid, lzma_lzma_preset e l)])
         | Inr (s', U) \<Rightarrow>
             1 \<le> preset_number s' \<and> preset_number s' < preset_number s
             \<and> U = lzma_memusage_encoder e [(fid, lzma_lzma_preset e (preset_number s'))]
             \<and> U \<le> opt_memory s
             \<and> (\<forall>l. preset_number s' < l \<and> l < preset_number s
                   \<longrightarrow> opt_memory s < lzma_memusage_encoder e [(fid, lzma_lzma_preset e l)])
             \<and> opt_lzma s' = lzma_lzma_preset e (preset_number s')
             \<and> chain s' = [(fid, opt_lzma s')]"
  using assms
proof (induction e s m rule: lower_preset.induct)
  case (1 e s m)
  let ?p = "preset_number s"
  let ?u = "\<lambda>l. lzma_memusage_encoder e [(fid, lzma_lzma_preset e l)]"
  note shape = "1.prems"(1) and presets = "1.prems"(2) and lvl = "1.prems"(3) and over = "1.prems"(4)
  show ?case
  proof (cases "?p = 1")
    case True
    have "\<not> (1 \<le> l \<and> l < (1 :: size_t))" for l
      by unat_arith
    with True over show ?thesis
      by (simp add: lower_preset.simps [of e s m])
  next
    case False
    note ne = False
    note w = level_below [OF lvl]
    from w(1) [OF ne] w(2) presets obtain ob where ob: "lzma_lzma_preset e (?p - 1) = Some ob"
      by (metis less_imp_le not_None_eq)
    let ?t = "s\<lparr> preset_number := ?p - 1, opt_lzma := Some ob \<rparr>"
    let ?m1 = "lzma_memusage_encoder e (chain ?t)"
    from shape have ct: "chain ?t = [(fid, Some ob)]"
      by blast
    with ob have m1: "?m1 = ?u (?p - 1)"
      by simp
    from over ne ob have unfold: "lower_preset e s m = lower_preset e ?t ?m1"
      by (simp add: lower_preset.simps [of e s m])
    show ?thesis
    proof (cases "opt_memory s < ?m1")
      case False
      then have "lower_preset e ?t ?m1 = Inr (?t, ?m1)"
        by (simp add: lower_preset.simps [of e ?t ?m1])
      with unfold have r: "lower_preset e s m = Inr (?t, ?m1)"
        by simp
      from False have fits: "?m1 \<le> opt_memory s"
        by simp
      have "1 \<le> preset_number ?t" "preset_number ?t < ?p"
        "\<forall>l. preset_number ?t < l \<and> l < ?p \<longrightarrow> opt_memory s < ?u l"
        "opt_lzma ?t = lzma_lzma_preset e (preset_number ?t)"
        "chain ?t = [(fid, opt_lzma ?t)]"
        "?m1 = ?u (preset_number ?t)"
        using w(1) [OF ne] w(2) w(4) ob ct m1 by auto
      with fits show ?thesis
        unfolding r by simp
    next
      case True
      have shape': "\<forall>q ob'. chain (?t\<lparr> preset_number := q, opt_lzma := ob' \<rparr>) = [(fid, ob')]"
        using shape by simp
      have presets': "\<forall>l. 1 \<le> l \<and> l \<le> preset_number ?t \<longrightarrow> lzma_lzma_preset e l \<noteq> None"
        using presets w(5) by simp
      have lvl': "1 \<le> preset_number ?t"
        using w(1) [OF ne] by simp
      have over': "opt_memory ?t < ?m1"
        using True by simp
      note ih = "1.IH" [OF over ne ob shape' presets' lvl' over']
      have step: "opt_memory s < ?u l" if "l < ?p" "l < ?p - 1 \<longrightarrow> opt_memory s < ?u l" for l
        using w(3) [OF that(1)] that(2) True m1 by auto
      show ?thesis
      proof (cases "lower_preset e ?t ?m1")
        case (Inl r)
        with ih have "r = Memlimit_too_small_for_presets"
          and "\<forall>l. 1 \<le> l \<and> l < ?p - 1 \<longrightarrow> opt_memory s < ?u l"
          by simp_all
        then have "r = Memlimit_too_small_for_presets \<and> (\<forall>l. 1 \<le> l \<and> l < ?p \<longrightarrow> opt_memory s < ?u l)"
          using step by blast
        with Inl unfold show ?thesis by simp
      next
        case (Inr res)
        obtain s' U where res: "res = (s', U)" by (cases res)
        from ih Inr res have a: "1 \<le> preset_number s'" "preset_number s' < ?p - 1"
          "U = ?u (preset_number s')" "U \<le> opt_memory s"
          "\<forall>l. preset_number s' < l \<and> l < ?p - 1 \<longrightarrow> opt_memory s < ?u l"
          "opt_lzma s' = lzma_lzma_preset e (preset_number s')"
          "chain s' = [(fid, opt_lzma s')]"
          by auto
        from a(2) w(2) have "preset_number s' < ?p"
          by simp
        moreover from a(5) step have "\<forall>l. preset_number s' < l \<and> l < ?p \<longrightarrow> opt_memory s < ?u l"
          by blast
        ultimately show ?thesis
          using a Inr res unfold by simp
      qed
    qed
  qed
qed


lemma chain_opt_threads: "chain (s\<lparr> opt_threads := n \<rparr>) = chain s"
proof -
  have "deref (s\<lparr> opt_threads := n \<rparr>) p = deref s p" for p
    by (simp add: deref_def split: opt_ptr.splits)
  then show ?thesis
    by (simp add: chain_def)
qed

text \<open>
  What the loop does on the default path (\<^verbatim>\<open>preset_default\<close> set, no filter), with liblzma giving
  a preset and a positive estimate for every level from 1 to the current one. When the first
  estimate is above the memory limit, \<^verbatim>\<open>set_compression_settings\<close> either returns with a level
  below the current one whose estimate by line 517 (the encoder's) is within the limit, every
  level between the two being above the limit by that estimate, and with the chain of that
  level; or it ends with the error that no preset fits, and then every level from 1 up to the
  current one is above the limit by that estimate. When compressing, the estimate of line 517
  is the one of the mode, and the chain returned is within the limit.
\<close>

theorem preset_lowered_to_first_fit:
  assumes "preset_default s" and "filter_count s = 0" and "length (opt_filters s) = 8"
    and "1 \<le> preset_number s"
    and "\<forall>l. 1 \<le> l \<and> l \<le> preset_number s \<longrightarrow> lzma_lzma_preset e l \<noteq> None"
    and "\<forall>l. 1 \<le> l \<and> l < preset_number s \<longrightarrow> 0 < level_usage e s l"
    and "opt_memory s < first_usage e s"
  shows "(case set_compression_settings e s of
            Inl r \<Rightarrow>
              r = Memlimit_too_small_for_presets
              \<and> (\<forall>l. 1 \<le> l \<and> l < preset_number s \<longrightarrow> opt_memory s < level_usage e s l)
          | Inr s' \<Rightarrow>
              1 \<le> preset_number s' \<and> preset_number s' < preset_number s
              \<and> level_usage e s (preset_number s') \<le> opt_memory s
              \<and> (\<forall>l. preset_number s' < l \<and> l < preset_number s
                    \<longrightarrow> opt_memory s < level_usage e s l)
              \<and> chain s' = [(default_id s, lzma_lzma_preset e (preset_number s'))]
              \<and> lzma_memusage_encoder e (chain s') \<le> opt_memory s
              \<and> (opt_mode s = MODE_COMPRESS \<longrightarrow> memory_usage_of e s' \<le> opt_memory s'))
       \<and> ((\<exists>s'. set_compression_settings e s = Inr s')
            \<longleftrightarrow> (\<exists>l. 1 \<le> l \<and> l < preset_number s \<and> level_usage e s l \<le> opt_memory s))"
proof -
  from assms(4,5) obtain ob where ob: "lzma_lzma_preset e (preset_number s) = Some ob"
    by auto
  from first_estimate_of_default [OF assms(2,3) ob] obtain s2 where
    d: "default_chain e s = Inr s2"
    and chk: "check_format_lzma (terminate_chain s2) = Inr (terminate_chain s2)"
    and mu: "memory_usage_of e (terminate_chain s2) = first_usage e s"
    and k: "preset_default (terminate_chain s2) = preset_default s"
      "opt_memory (terminate_chain s2) = opt_memory s"
      "preset_number (terminate_chain s2) = preset_number s"
    and shape: "\<forall>q ob'. chain ((terminate_chain s2)\<lparr> preset_number := q, opt_lzma := ob' \<rparr>)
                  = [(default_id s, ob')]"
    by blast
  let ?t = "terminate_chain s2"
  have settle: "settle_memory_usage e s = lower_preset e ?t (first_usage e s)"
    using d chk mu k assms(1) by (simp add: settle_memory_usage_def apply_memory_limit_def)
  have presets: "\<forall>l. 1 \<le> l \<and> l \<le> preset_number ?t \<longrightarrow> lzma_lzma_preset e l \<noteq> None"
    and lvl: "1 \<le> preset_number ?t" and over: "opt_memory ?t < first_usage e s"
    using assms(4,5,7) k by simp_all
  note loop = lower_preset_result [OF shape presets lvl over, unfolded k, folded level_usage_def]
  have main: "case set_compression_settings e s of
            Inl r \<Rightarrow>
              r = Memlimit_too_small_for_presets
              \<and> (\<forall>l. 1 \<le> l \<and> l < preset_number s \<longrightarrow> opt_memory s < level_usage e s l)
          | Inr s' \<Rightarrow>
              1 \<le> preset_number s' \<and> preset_number s' < preset_number s
              \<and> level_usage e s (preset_number s') \<le> opt_memory s
              \<and> (\<forall>l. preset_number s' < l \<and> l < preset_number s
                    \<longrightarrow> opt_memory s < level_usage e s l)
              \<and> chain s' = [(default_id s, lzma_lzma_preset e (preset_number s'))]
              \<and> lzma_memusage_encoder e (chain s') \<le> opt_memory s
              \<and> (opt_mode s = MODE_COMPRESS \<longrightarrow> memory_usage_of e s' \<le> opt_memory s')"
  proof (cases "lower_preset e ?t (first_usage e s)")
    case (Inl r)
    with loop settle show ?thesis
      by (simp add: set_compression_settings_def)
  next
    case (Inr res)
    obtain s3 U where res: "res = (s3, U)" by (cases res)
    from loop Inr res have a: "1 \<le> preset_number s3" "preset_number s3 < preset_number s"
      "U = level_usage e s (preset_number s3)" "U \<le> opt_memory s"
      "\<forall>l. preset_number s3 < l \<and> l < preset_number s \<longrightarrow> opt_memory s < level_usage e s l"
      "opt_lzma s3 = lzma_lzma_preset e (preset_number s3)"
      "chain s3 = [(default_id s, opt_lzma s3)]"
      by auto
    from a(1,2,3) assms(6) have pos: "0 < U"
      by simp
    let ?s' = "s3\<lparr> opt_threads := min (opt_threads s3) (max 1 (opt_memory s3 div U)) \<rparr>"
    have run: "set_compression_settings e s = Inr ?s'"
      using settle Inr res limit_threads_value [OF pos, of s3]
      by (simp add: set_compression_settings_def)
    have "chain ?s' = [(default_id s, lzma_lzma_preset e (preset_number ?s'))]"
      using a(6,7) by (simp add: chain_opt_threads)
    moreover from this a(3,4) have fit: "lzma_memusage_encoder e (chain ?s') \<le> opt_memory s"
      by (simp add: level_usage_def)
    moreover have "memory_usage_of e ?s' \<le> opt_memory ?s'" if "opt_mode s = MODE_COMPRESS"
    proof -
      note f = set_compression_settings_frame [OF run]
      have "opt_mode ?s' = opt_mode s" "opt_memory ?s' = opt_memory s"
        by (subst f, simp)+
      with that fit show ?thesis
        by (simp add: memory_usage_of_def)
    qed
    ultimately show ?thesis
      using a(1,2,3,4,5) unfolding run by simp
  qed
  have "(\<exists>s'. set_compression_settings e s = Inr s')
          \<longleftrightarrow> (\<exists>l. 1 \<le> l \<and> l < preset_number s \<and> level_usage e s l \<le> opt_memory s)"
  proof (cases "set_compression_settings e s")
    case (Inl r)
    with main have "\<forall>l. 1 \<le> l \<and> l < preset_number s \<longrightarrow> opt_memory s < level_usage e s l"
      by simp
    then have "\<not> (\<exists>l. 1 \<le> l \<and> l < preset_number s \<and> level_usage e s l \<le> opt_memory s)"
      by (meson leD)
    with Inl show ?thesis
      by simp
  next
    case (Inr s')
    with main have "1 \<le> preset_number s' \<and> preset_number s' < preset_number s
        \<and> level_usage e s (preset_number s') \<le> opt_memory s"
      by simp
    with Inr show ?thesis
      by blast
  qed
  with main show ?thesis ..
qed

lemma sample_level_usage:
  "level_usage sample_ext (init_state 2 50 4) l = (if 1 \<le> l \<and> l \<le> 9 then 10 * l else 10)"
  by (simp add: level_usage_def sample_defs)

lemma sample_levels_positive:
  fixes l :: size_t
  assumes "1 \<le> l" and "l < 7"
  shows "0 < 10 * l"
proof -
  from assms have "l = 1 \<or> l = 2 \<or> l = 3 \<or> l = 4 \<or> l = 5 \<or> l = 6"
    by unat_arith
  then show ?thesis
    by auto
qed

lemma sample_levels_known:
  fixes l :: size_t
  shows "l \<le> 7 \<Longrightarrow> l \<le> 9"
  by unat_arith

theorem preset_lowered_to_first_fit_witness:
  "preset_default (init_state 2 50 4 :: nat state)
   \<and> filter_count (init_state 2 50 4 :: nat state) = 0
   \<and> preset_number (init_state 2 50 4 :: nat state) = 7
   \<and> opt_memory (init_state 2 50 4 :: nat state) = 50
   \<and> first_usage sample_ext (init_state 2 50 4) = 70
   \<and> level_usage sample_ext (init_state 2 50 4) 6 = 60
   \<and> level_usage sample_ext (init_state 2 50 4) 5 = 50
   \<and> (\<exists>s'. set_compression_settings sample_ext (init_state 2 50 4) = Inr s'
          \<and> preset_number s' = 5
          \<and> chain s' = [(LZMA_FILTER_LZMA2, Some 5)]
          \<and> lzma_memusage_encoder sample_ext (chain s') \<le> 50)"
proof -
  let ?s = "init_state 2 50 4 :: nat state"
  have i: "preset_default ?s" "filter_count ?s = 0" "length (opt_filters ?s) = 8"
    "1 \<le> preset_number ?s" "preset_number ?s = 7" "opt_memory ?s = 50"
    by (simp_all add: init_state_def)
  have u: "first_usage sample_ext ?s = 70" "level_usage sample_ext ?s 6 = 60"
    "level_usage sample_ext ?s 5 = 50"
    by (simp_all add: run_defs id_defs sample_defs)
  have presets: "\<forall>l. 1 \<le> l \<and> l \<le> preset_number ?s \<longrightarrow> lzma_lzma_preset sample_ext l \<noteq> None"
    unfolding i(5) using sample_levels_known by (auto simp: sample_ext_def)
  have pos: "\<forall>l. 1 \<le> l \<and> l < preset_number ?s \<longrightarrow> 0 < level_usage sample_ext ?s l"
    unfolding i(5) sample_level_usage using sample_levels_positive by auto
  have over: "opt_memory ?s < first_usage sample_ext ?s"
    unfolding u i(6) by simp
  have "\<exists>s'. set_compression_settings sample_ext ?s = Inr s' \<and> preset_number s' = 5
          \<and> chain s' = [(LZMA_FILTER_LZMA2, Some 5)]"
    by (simp add: run_defs id_defs sample_defs replicate_8)
  then obtain s' where run: "set_compression_settings sample_ext ?s = Inr s'"
    and lvl: "preset_number s' = 5" and c: "chain s' = [(LZMA_FILTER_LZMA2, Some 5)]"
    by blast
  from preset_lowered_to_first_fit [OF i(1,2,3,4) presets pos over]
  have "lzma_memusage_encoder sample_ext (chain s') \<le> opt_memory ?s"
    unfolding run sum.case by blast
  with run lvl c i u show ?thesis
    by auto
qed

text \<open>
  C2 fails on the code when a raw stream is decoded. With \<^verbatim>\<open>-Fraw -d\<close> under a limit of 5 the
  first estimate is the decoder's for preset 7, which is 7, and the decoder's for preset 5 is 5
  and fits; the loop compares the encoder's estimates (60 down to 10) and the run ends with the
  error that no preset fits. With the two cost models exchanged and a limit of 50, the first
  estimate is 70, the loop accepts preset 6 on the encoder's 6, and the run returns with a chain
  whose estimate in its mode is 60.
\<close>

theorem lowering_misjudges_raw_decoding:
  "parse_args sample_ext ''xz'' None 3 [Some ''xz'', Some ''-Fraw'', Some ''-d'', None]
        (init_state 2 5 4) = Inl Memlimit_too_small_for_presets
   \<and> lzma_memusage_decoder sample_ext [(LZMA_FILTER_LZMA2, lzma_lzma_preset sample_ext 7)] = 7
   \<and> lzma_memusage_decoder sample_ext [(LZMA_FILTER_LZMA2, lzma_lzma_preset sample_ext 5)] = 5
   \<and> parse_args
        (sample_ext\<lparr> lzma_memusage_encoder := sample_cost 1, lzma_memusage_decoder := sample_cost 10 \<rparr>)
        ''xz'' None 3 [Some ''xz'', Some ''-Fraw'', Some ''-d'', None] (init_state 2 50 4) =
       Inr ((init_state 2 50 4)
              \<lparr> opt_mode := MODE_DECOMPRESS, opt_format := FORMAT_RAW,
                opt_filters := (replicate 8 \<lparr> id_vli = 0, options = NULL \<rparr>)
                  [0 := \<lparr> id_vli = LZMA_FILTER_LZMA2, options = Addr_opt_lzma \<rparr>,
                   1 := \<lparr> id_vli = LZMA_VLI_UNKNOWN, options = NULL \<rparr>],
                preset_number := 6, filter_count := 1, opt_lzma := Some 6 \<rparr>,
            [Some ''-'', None])
   \<and> memory_usage_of
        (sample_ext\<lparr> lzma_memusage_encoder := sample_cost 1, lzma_memusage_decoder := sample_cost 10 \<rparr>)
        ((init_state 2 50 4)
              \<lparr> opt_mode := MODE_DECOMPRESS, opt_format := FORMAT_RAW,
                opt_filters := (replicate 8 \<lparr> id_vli = 0, options = NULL \<rparr>)
                  [0 := \<lparr> id_vli = LZMA_FILTER_LZMA2, options = Addr_opt_lzma \<rparr>,
                   1 := \<lparr> id_vli = LZMA_VLI_UNKNOWN, options = NULL \<rparr>],
                preset_number := 6, filter_count := 1, opt_lzma := Some 6 \<rparr>) = 60
   \<and> opt_memory (init_state 2 50 4 :: nat state) = 50"
  by (simp add: run_defs id_defs sample_defs replicate_8)

section \<open>The \<^verbatim>\<open>.lzma\<close> format\<close>

lemma lower_preset_errors:
  "lower_preset e s m = Inl r \<Longrightarrow> r = Memlimit_too_small_for_presets \<or> r = Internal_error"
proof (induction e s m rule: lower_preset.induct)
  case (1 e s m)
  show ?case
  proof (cases "opt_memory s < m \<and> preset_number s \<noteq> 1")
    case False
    with "1.prems" show ?thesis
      by (auto simp: lower_preset.simps [of e s m] split: if_splits)
  next
    case True
    show ?thesis
    proof (cases "lzma_lzma_preset e (preset_number s - 1)")
      case None
      with True "1.prems" show ?thesis
        by (simp add: lower_preset.simps [of e s m])
    next
      case (Some ob)
      with True "1.prems" "1.IH" [of ob] show ?thesis
        by (simp add: lower_preset.simps [of e s m])
    qed
  qed
qed

lemma later_errors:
  assumes "apply_memory_limit e s m = Inl r \<or>
           (\<exists>s3 U. apply_memory_limit e s m = Inr (s3, U) \<and> limit_threads s3 U = Inl r)"
  shows "r \<noteq> Only_LZMA1_supported"
  using assms
  by (auto simp: apply_memory_limit_def limit_threads_def Let_def
      split: if_splits dest: lower_preset_errors)

text \<open>
  C6: with the \<^verbatim>\<open>.lzma\<close> format and a chain built from filter flags, \<^verbatim>\<open>set_compression_settings\<close>
  ends with the error of line 489 whenever the chain is not the single filter LZMA1, and for
  the single filter LZMA1 the check of lines 487--492 passes: it is never that error.
\<close>

theorem lzma_format_takes_only_lzma1:
  assumes "opt_format s = FORMAT_LZMA" and "filter_count s \<noteq> 0"
  shows "(filter_count s = 1 \<and> id_vli (opt_filters s ! 0) = LZMA_FILTER_LZMA1
            \<longrightarrow> check_format_lzma (terminate_chain s) = Inr (terminate_chain s)
                \<and> set_compression_settings e s \<noteq> Inl Only_LZMA1_supported)
       \<and> (\<not> (filter_count s = 1 \<and> id_vli (opt_filters s ! 0) = LZMA_FILTER_LZMA1)
            \<longrightarrow> check_format_lzma (terminate_chain s) = Inl Only_LZMA1_supported
                \<and> set_compression_settings e s = Inl Only_LZMA1_supported)"
proof -
  from assms(2) have n: "unat (filter_count s) \<noteq> 0"
    by (simp add: unat_eq_0)
  have d: "default_chain e s = Inr s"
    using assms(2) by (simp add: default_chain_def)
  have first: "id_vli (opt_filters (terminate_chain s) ! 0) = id_vli (opt_filters s ! 0)"
    using n by (simp add: terminate_chain_def)
  have k: "opt_format (terminate_chain s) = FORMAT_LZMA"
    "filter_count (terminate_chain s) = filter_count s"
    using assms(1) by (simp_all add: terminate_chain_def)
  show ?thesis
  proof (cases "filter_count s = 1 \<and> id_vli (opt_filters s ! 0) = LZMA_FILTER_LZMA1")
    case True
    with first k have chk: "check_format_lzma (terminate_chain s) = Inr (terminate_chain s)"
      by (simp add: check_format_lzma_def)
    have "set_compression_settings e s \<noteq> Inl Only_LZMA1_supported"
    proof
      assume "set_compression_settings e s = Inl Only_LZMA1_supported"
      with d chk have
        "apply_memory_limit e (terminate_chain s) (memory_usage_of e (terminate_chain s))
            = Inl Only_LZMA1_supported
         \<or> (\<exists>s3 U. apply_memory_limit e (terminate_chain s) (memory_usage_of e (terminate_chain s))
                      = Inr (s3, U)
                  \<and> limit_threads s3 U = Inl Only_LZMA1_supported)"
        by (auto simp: set_compression_settings_def settle_memory_usage_def split: sum.splits)
      from later_errors [OF this] show False
        by simp
    qed
    with True chk show ?thesis
      by simp
  next
    case False
    with first k have chk: "check_format_lzma (terminate_chain s) = Inl Only_LZMA1_supported"
      by (auto simp: check_format_lzma_def)
    with d have "set_compression_settings e s = Inl Only_LZMA1_supported"
      by (simp add: set_compression_settings_def settle_memory_usage_def)
    with False chk show ?thesis
      by simp
  qed
qed

theorem lzma_format_takes_only_lzma1_witness:
  "parse_args_flags sample_ext ''xz'' None 3 [Some ''xz'', Some ''-Flzma'', Some ''--lzma2'', None]
       (init_state 2 600 4) =
     Inr ((init_state 2 600 4)
            \<lparr> opt_format := FORMAT_LZMA,
              opt_filters := (replicate 8 \<lparr> id_vli = 0, options = NULL \<rparr>)
                [0 := \<lparr> id_vli = LZMA_FILTER_LZMA2, options = Allocated 7 \<rparr>],
              preset_default := False, filter_count := 1 \<rparr>)
   \<and> set_compression_settings sample_ext
        ((init_state 2 600 4)
            \<lparr> opt_format := FORMAT_LZMA,
              opt_filters := (replicate 8 \<lparr> id_vli = 0, options = NULL \<rparr>)
                [0 := \<lparr> id_vli = LZMA_FILTER_LZMA2, options = Allocated 7 \<rparr>],
              preset_default := False, filter_count := 1 \<rparr>) = Inl Only_LZMA1_supported
   \<and> parse_args_flags sample_ext ''xz'' None 3 [Some ''xz'', Some ''-Flzma'', Some ''--lzma1'', None]
       (init_state 2 600 4) =
     Inr ((init_state 2 600 4)
            \<lparr> opt_format := FORMAT_LZMA,
              opt_filters := (replicate 8 \<lparr> id_vli = 0, options = NULL \<rparr>)
                [0 := \<lparr> id_vli = LZMA_FILTER_LZMA1, options = Allocated 7 \<rparr>],
              preset_default := False, filter_count := 1 \<rparr>)
   \<and> set_compression_settings sample_ext
        ((init_state 2 600 4)
            \<lparr> opt_format := FORMAT_LZMA,
              opt_filters := (replicate 8 \<lparr> id_vli = 0, options = NULL \<rparr>)
                [0 := \<lparr> id_vli = LZMA_FILTER_LZMA1, options = Allocated 7 \<rparr>],
              preset_default := False, filter_count := 1 \<rparr>) \<noteq> Inl Only_LZMA1_supported
   \<and> parse_args sample_ext ''xz'' None 4
        [Some ''xz'', Some ''-Flzma'', Some ''--x86'', Some ''--lzma1'', None] (init_state 2 600 4) =
       Inl Only_LZMA1_supported"
proof -
  let ?S = "\<lambda>fid. (init_state 2 600 4 :: nat state)
            \<lparr> opt_format := FORMAT_LZMA,
              opt_filters := (replicate 8 \<lparr> id_vli = 0, options = NULL \<rparr>)
                [0 := \<lparr> id_vli = fid, options = Allocated 7 \<rparr>],
              preset_default := False, filter_count := 1 \<rparr>"
  have f2: "parse_args_flags sample_ext ''xz'' None 3 [Some ''xz'', Some ''-Flzma'', Some ''--lzma2'', None]
       (init_state 2 600 4) = Inr (?S LZMA_FILTER_LZMA2)"
    and f1: "parse_args_flags sample_ext ''xz'' None 3 [Some ''xz'', Some ''-Flzma'', Some ''--lzma1'', None]
       (init_state 2 600 4) = Inr (?S LZMA_FILTER_LZMA1)"
    and two: "parse_args sample_ext ''xz'' None 4
        [Some ''xz'', Some ''-Flzma'', Some ''--x86'', Some ''--lzma1'', None] (init_state 2 600 4) =
       Inl Only_LZMA1_supported"
    by (simp_all add: run_defs id_defs sample_defs replicate_8)
  have h: "opt_format (?S fid) = FORMAT_LZMA" "filter_count (?S fid) \<noteq> 0"
    "filter_count (?S fid) = 1" "id_vli (opt_filters (?S fid) ! 0) = fid" for fid
    by (simp_all add: init_state_def replicate_8)
  have ne: "LZMA_FILTER_LZMA2 \<noteq> LZMA_FILTER_LZMA1"
    by (simp add: id_defs)
  from lzma_format_takes_only_lzma1 [OF h(1,2), of LZMA_FILTER_LZMA2 sample_ext] h(3,4) ne
  have a: "set_compression_settings sample_ext (?S LZMA_FILTER_LZMA2) = Inl Only_LZMA1_supported"
    by simp
  from lzma_format_takes_only_lzma1 [OF h(1,2), of LZMA_FILTER_LZMA1 sample_ext] h(3,4)
  have b: "set_compression_settings sample_ext (?S LZMA_FILTER_LZMA1) \<noteq> Inl Only_LZMA1_supported"
    by simp
  from f2 a f1 b two show ?thesis
    by (simp only: simp_thms)
qed

section \<open>The estimate inside the loop\<close>

text \<open>The loop of lines 504--518 never asks the decoder's cost model.\<close>


lemma lower_preset_ignores_decoder:
  "lower_preset (e\<lparr> lzma_memusage_decoder := d \<rparr>) s m = lower_preset e s m"
proof (induction e s m rule: lower_preset.induct)
  case (1 e s m)
  show ?case
  proof (cases "opt_memory s < m \<and> preset_number s \<noteq> 1")
    case False
    then show ?thesis
      by (auto simp: lower_preset.simps [of e s m]
          lower_preset.simps [of "e\<lparr> lzma_memusage_decoder := d \<rparr>" s m])
  next
    case True
    show ?thesis
    proof (cases "lzma_lzma_preset e (preset_number s - 1)")
      case None
      with True show ?thesis
        by (simp add: lower_preset.simps [of e s m]
            lower_preset.simps [of "e\<lparr> lzma_memusage_decoder := d \<rparr>" s m])
    next
      case (Some ob)
      with True "1.IH" [of ob] show ?thesis
        by (simp add: lower_preset.simps [of e s m]
            lower_preset.simps [of "e\<lparr> lzma_memusage_decoder := d \<rparr>" s m])
    qed
  qed
qed

text \<open>
  C4 fails on the code: decoding a raw stream (\<^verbatim>\<open>-Fraw -d\<close>) under a limit of 6, the first estimate
  is the decoder's for preset 7, which is 7; the decoder's for preset 6 is 6 and fits, but the
  loop compares the encoder's estimates (60 for preset 6, 10 for preset 1) and the run ends with
  the error that no preset fits.
\<close>

theorem loop_estimates_with_encoder:
  "fst (getopt_long sample_ext 3 [Some ''xz'', Some ''-Fraw'', Some ''-d'', None]) =
     [(code CHR ''F'', Some ''raw''), (code CHR ''d'', None)]
   \<and> parse_args sample_ext ''xz'' None 3 [Some ''xz'', Some ''-Fraw'', Some ''-d'', None]
        (init_state 2 6 4) = Inl Memlimit_too_small_for_presets
   \<and> lzma_memusage_decoder sample_ext [(LZMA_FILTER_LZMA2, lzma_lzma_preset sample_ext 7)] = 7
   \<and> lzma_memusage_decoder sample_ext [(LZMA_FILTER_LZMA2, lzma_lzma_preset sample_ext 6)] = 6
   \<and> lzma_memusage_encoder sample_ext [(LZMA_FILTER_LZMA2, lzma_lzma_preset sample_ext 6)] = 60
   \<and> lzma_memusage_encoder sample_ext [(LZMA_FILTER_LZMA2, lzma_lzma_preset sample_ext 1)] = 10"
  by (simp add: run_defs id_defs sample_defs replicate_8)

section \<open>The arguments of the environment variable\<close>

text \<open>
  C7 fails on the code: for the value \<^verbatim>\<open>-7 -k\<close> the vector has the program name, two arguments
  and the final \<^verbatim>\<open>NULL\<close>, but its first argument is the string \<^verbatim>\<open>-7 -k\<close>, not the token \<^verbatim>\<open>-7\<close>: no
  zero byte is written after a token, so every argument runs to the end of the value.
\<close>

theorem environment_arguments_run_on:
  "environment_argv ''xz'' ''-7 -k'' = Inr (3, [Some ''xz'', Some ''-7 -k'', Some ''-k'', None])"
  by (simp add: environment_argv_def c_str_def isspace_def INT_MAX_def)

section \<open>The default mark and the chain the resolver returns\<close>

lemma add_filter_length:
  "add_filter e fid a s = Inr s' \<Longrightarrow> length (opt_filters s') = length (opt_filters s)"
  by (auto simp: add_filter_def split: if_splits sum.splits)

lemma filter_flag_case:
  assumes "is_filter_flag c"
  shows "\<exists>fid a'. parse_real_case e (c, a) s = add_filter e fid a' s"
  using assms
  by (auto simp: is_filter_flag_def parse_real_case_def code_def id_defs)

lemma parse_real_case_default_mark:
  assumes "parse_real_case e x s = Inr s'"
  shows "length (opt_filters s') = length (opt_filters s)
       \<and> (preset_default s' \<longleftrightarrow>
            preset_default s \<and> \<not> is_preset_flag (fst x) \<and> \<not> is_filter_flag (fst x))"
proof (cases "is_filter_flag (fst x)")
  case True
  obtain c a where x: "x = (c, a)" by (cases x)
  from True x filter_flag_case [of c e a s] obtain fid a'
    where "parse_real_case e x s = add_filter e fid a' s"
    by auto
  with assms have "add_filter e fid a' s = Inr s'"
    by simp
  from add_filter_length [OF this] add_filter_keeps(2) [OF this] True show ?thesis
    by simp
next
  case False
  from parse_real_case_not_filter [OF assms False] False show ?thesis
    by auto
qed

lemma parse_real_loop_default_mark:
  assumes "parse_real_loop e opts s = Inr s'"
  shows "length (opt_filters s') = length (opt_filters s)
       \<and> (preset_default s' \<longleftrightarrow>
            preset_default s
            \<and> (\<forall>x\<in>set opts. \<not> is_preset_flag (fst x) \<and> \<not> is_filter_flag (fst x)))"
  using assms
proof (induction opts arbitrary: s)
  case Nil
  then show ?case by simp
next
  case (Cons x xs)
  from Cons.prems obtain t where step: "parse_real_case e x s = Inr t"
    and rest: "parse_real_loop e xs t = Inr s'"
    by (auto split: sum.splits)
  from parse_real_case_default_mark [OF step] Cons.IH [OF rest]
  show ?case by auto
qed

lemma parse_args_flags_default_mark:
  assumes "parse_args_flags e argv0 getenv argc argv (init_state v mem thr) = Inr s1"
  shows "length (opt_filters s1) = 8
       \<and> (preset_default s1 \<longleftrightarrow>
            (\<forall>x\<in>set (environment_flags e argv0 getenv @ fst (getopt_long e argc argv)).
               \<not> is_preset_flag (fst x) \<and> \<not> is_filter_flag (fst x)))"
proof -
  from assms obtain a b where name: "called_as e argv (init_state v mem thr) = Inr a"
    and env: "parse_environment e argv0 getenv a = Inr b"
    and cmd: "parse_real e argc argv b = Inr s1"
    by (auto simp: parse_args_flags_def split: sum.splits)
  have i: "preset_default (init_state v mem thr :: 'a state)"
    "length (opt_filters (init_state v mem thr :: 'a state)) = 8"
    by (simp_all add: init_state_def)
  from called_as_keeps [OF name] i have a: "preset_default a" "length (opt_filters a) = 8"
    by simp_all
  from cmd have cmd': "parse_real_loop e (fst (getopt_long e argc argv)) b = Inr s1"
    by (simp add: parse_real_def)
  from parse_real_loop_default_mark [OF parse_environment_flags [OF env]]
    parse_real_loop_default_mark [OF cmd'] a
  show ?thesis
    by auto
qed

lemma lower_preset_chain:
  assumes "\<forall>q ob'. chain (s\<lparr> preset_number := q, opt_lzma := ob' \<rparr>) = [(fid, ob')]"
    and "opt_lzma s = lzma_lzma_preset e (preset_number s)"
    and "chain s = [(fid, opt_lzma s)]"
    and "lower_preset e s m = Inr (s', U)"
  shows "opt_lzma s' = lzma_lzma_preset e (preset_number s')
       \<and> chain s' = [(fid, opt_lzma s')]
       \<and> (m \<le> opt_memory s \<longrightarrow> preset_number s' = preset_number s)"
  using assms
proof (induction e s m rule: lower_preset.induct)
  case (1 e s m)
  note shape = "1.prems"(1) and run = "1.prems"(4)
  show ?case
  proof (cases "opt_memory s < m")
    case False
    with run have "s' = s"
      by (simp add: lower_preset.simps [of e s m])
    with "1.prems"(2,3) show ?thesis
      by simp
  next
    case True
    note over = this
    from over run have ne: "preset_number s \<noteq> 1"
      by (auto simp: lower_preset.simps [of e s m])
    from over ne run obtain ob where ob: "lzma_lzma_preset e (preset_number s - 1) = Some ob"
      by (cases "lzma_lzma_preset e (preset_number s - 1)")
        (auto simp: lower_preset.simps [of e s m])
    let ?t = "s\<lparr> preset_number := preset_number s - 1, opt_lzma := Some ob \<rparr>"
    from over ne ob run
    have run': "lower_preset e ?t (lzma_memusage_encoder e (chain ?t)) = Inr (s', U)"
      by (simp add: lower_preset.simps [of e s m])
    have shape': "\<forall>q ob'. chain (?t\<lparr> preset_number := q, opt_lzma := ob' \<rparr>) = [(fid, ob')]"
      using shape by simp
    have l: "opt_lzma ?t = lzma_lzma_preset e (preset_number ?t)"
      using ob by simp
    have c: "chain ?t = [(fid, opt_lzma ?t)]"
      using shape by simp
    from "1.IH" [OF over ne ob shape' l c run'] over show ?thesis
      by simp
  qed
qed

lemma settle_default_chain:
  assumes "filter_count t = 0" and "length (opt_filters t) = 8"
    and "lzma_lzma_preset e (preset_number t) = Some ob"
    and "settle_memory_usage e t = Inr (s3, U)"
  shows "filter_count s3 = 1 \<and> preset_default s3 = preset_default t
       \<and> chain s3 = [(default_id t, lzma_lzma_preset e (preset_number s3))]
       \<and> (\<not> preset_default t \<or> first_usage e t \<le> opt_memory t
            \<longrightarrow> preset_number s3 = preset_number t)"
proof -
  from first_estimate_of_default [OF assms(1,2,3)] obtain s2 where
    d: "default_chain e t = Inr s2"
    and chk: "check_format_lzma (terminate_chain s2) = Inr (terminate_chain s2)"
    and mu: "memory_usage_of e (terminate_chain s2) = first_usage e t"
    and k: "preset_default (terminate_chain s2) = preset_default t"
      "opt_memory (terminate_chain s2) = opt_memory t"
      "preset_number (terminate_chain s2) = preset_number t"
      "filter_count (terminate_chain s2) = 1"
      "opt_lzma (terminate_chain s2) = Some ob"
    and c: "chain (terminate_chain s2) = [(default_id t, Some ob)]"
    and shape: "\<forall>q ob'. chain ((terminate_chain s2)\<lparr> preset_number := q, opt_lzma := ob' \<rparr>)
                  = [(default_id t, ob')]"
    by blast
  let ?T = "terminate_chain s2"
  from assms(4) d chk mu have a: "apply_memory_limit e ?T (first_usage e t) = Inr (s3, U)"
    by (simp add: settle_memory_usage_def)
  show ?thesis
  proof (cases "preset_default t")
    case False
    with a k have "s3 = ?T"
      by (auto simp: apply_memory_limit_def split: if_splits)
    with False k c assms(3) show ?thesis
      by simp
  next
    case True
    with a k have run: "lower_preset e ?T (first_usage e t) = Inr (s3, U)"
      by (simp add: apply_memory_limit_def)
    have l: "opt_lzma ?T = lzma_lzma_preset e (preset_number ?T)"
      using k assms(3) by simp
    have c': "chain ?T = [(default_id t, opt_lzma ?T)]"
      using c k by simp
    note f = lower_preset_frame [OF run]
    have "filter_count s3 = 1" "preset_default s3 = preset_default t"
      using k by (subst f, simp)+
    with lower_preset_chain [OF shape l c' run] k True show ?thesis
      by simp
  qed
qed

text \<open>
  C5, as amended: after the flags of a run are read from the initial state, with no filter in
  the chain and a level whose preset liblzma has, lines 470--483 leave a chain of exactly one
  filter, with the options of that preset and the identifier LZMA1 for the \<^verbatim>\<open>.lzma\<close> format and
  LZMA2 otherwise, and the chain passes the check of the \<^verbatim>\<open>.lzma\<close> format. The resolver does not
  write \<^verbatim>\<open>preset_default\<close>: there and in the state \<^verbatim>\<open>set_compression_settings\<close> returns it is set
  exactly when neither the environment nor the command line held a preset flag or a filter
  flag. The state returned has one filter, with the options of the preset of the level it ends
  with, which is the chosen level unless the chain is a default one over the memory limit.
\<close>

theorem default_chain_of_preset:
  assumes "parse_args_flags e argv0 getenv argc argv (init_state v mem thr) = Inr s1"
    and "filter_count s1 = 0"
    and "lzma_lzma_preset e (preset_number s1) = Some ob"
  shows "\<exists>s2. default_chain e (parse_args_adjust s1) = Inr s2
           \<and> filter_count s2 = 1
           \<and> chain (terminate_chain s2) =
               [(if opt_format (parse_args_adjust s1) = FORMAT_LZMA then LZMA_FILTER_LZMA1
                 else LZMA_FILTER_LZMA2, Some ob)]
           \<and> check_format_lzma (terminate_chain s2) = Inr (terminate_chain s2)
           \<and> preset_number (terminate_chain s2) = preset_number s1
           \<and> (preset_default (terminate_chain s2) \<longleftrightarrow>
                (\<forall>x\<in>set (environment_flags e argv0 getenv @ fst (getopt_long e argc argv)).
                   \<not> is_preset_flag (fst x) \<and> \<not> is_filter_flag (fst x)))
           \<and> (\<forall>s'. set_compression_settings e (parse_args_adjust s1) = Inr s' \<longrightarrow>
                  filter_count s' = 1
                  \<and> chain s' =
                      [(if opt_format (parse_args_adjust s1) = FORMAT_LZMA then LZMA_FILTER_LZMA1
                        else LZMA_FILTER_LZMA2, lzma_lzma_preset e (preset_number s'))]
                  \<and> (preset_default s' \<longleftrightarrow>
                       (\<forall>x\<in>set (environment_flags e argv0 getenv @ fst (getopt_long e argc argv)).
                          \<not> is_preset_flag (fst x) \<and> \<not> is_filter_flag (fst x)))
                  \<and> (\<not> preset_default s'
                         \<or> first_usage e (parse_args_adjust s1) \<le> opt_memory (parse_args_adjust s1)
                       \<longrightarrow> preset_number s' = preset_number s1))"
proof -
  let ?t = "parse_args_adjust s1"
  let ?none = "\<forall>x\<in>set (environment_flags e argv0 getenv @ fst (getopt_long e argc argv)).
                 \<not> is_preset_flag (fst x) \<and> \<not> is_filter_flag (fst x)"
  from parse_args_flags_default_mark [OF assms(1)]
  have len: "length (opt_filters s1) = 8" and mark: "preset_default s1 \<longleftrightarrow> ?none"
    by simp_all
  have t: "filter_count ?t = 0" "length (opt_filters ?t) = 8"
    "lzma_lzma_preset e (preset_number ?t) = Some ob"
    "preset_default ?t = preset_default s1" "preset_number ?t = preset_number s1"
    using assms(2,3) len by (simp_all add: parse_args_adjust_keeps)
  from default_chain_of_state [OF t(1,2,3)] obtain s2 where
    s2: "default_chain e ?t = Inr s2" "filter_count s2 = 1"
      "chain (terminate_chain s2) =
         [(if opt_format ?t = FORMAT_LZMA then LZMA_FILTER_LZMA1 else LZMA_FILTER_LZMA2, Some ob)]"
      "check_format_lzma (terminate_chain s2) = Inr (terminate_chain s2)"
      "preset_number (terminate_chain s2) = preset_number ?t"
      "preset_default (terminate_chain s2) = preset_default ?t"
    by blast
  have ret: "filter_count s' = 1
      \<and> chain s' = [(if opt_format ?t = FORMAT_LZMA then LZMA_FILTER_LZMA1 else LZMA_FILTER_LZMA2,
                      lzma_lzma_preset e (preset_number s'))]
      \<and> (preset_default s' \<longleftrightarrow> ?none)
      \<and> (\<not> preset_default s' \<or> first_usage e ?t \<le> opt_memory ?t
            \<longrightarrow> preset_number s' = preset_number s1)"
    if run: "set_compression_settings e ?t = Inr s'" for s'
  proof -
    from run obtain s3 U where settle: "settle_memory_usage e ?t = Inr (s3, U)"
      and lim: "limit_threads s3 U = Inr s'"
      by (auto simp: set_compression_settings_def split: sum.splits)
    note f = limit_threads_frame [OF lim]
    have same: "filter_count s' = filter_count s3" "preset_default s' = preset_default s3"
      "preset_number s' = preset_number s3"
      by (subst f, simp)+
    have ch: "chain s' = chain s3"
      by (subst f) (simp add: chain_opt_threads)
    from settle_default_chain [OF t(1,2,3) settle] same ch t(4,5) mark show ?thesis
      by (simp add: default_id_def)
  qed
  then have all: "\<forall>s'. set_compression_settings e ?t = Inr s' \<longrightarrow>
      filter_count s' = 1
      \<and> chain s' = [(if opt_format ?t = FORMAT_LZMA then LZMA_FILTER_LZMA1 else LZMA_FILTER_LZMA2,
                      lzma_lzma_preset e (preset_number s'))]
      \<and> (preset_default s' \<longleftrightarrow> ?none)
      \<and> (\<not> preset_default s' \<or> first_usage e ?t \<le> opt_memory ?t
            \<longrightarrow> preset_number s' = preset_number s1)"
    by (intro allI impI)
  have pn: "preset_number (terminate_chain s2) = preset_number s1"
    using s2(5) t(5) by simp
  have pd: "preset_default (terminate_chain s2) \<longleftrightarrow> ?none"
    using s2(6) t(4) mark by simp
  from s2(1,2,3,4) pn pd all show ?thesis
    by (intro exI [of _ s2] conjI)
qed

theorem default_chain_of_preset_witness:
  "parse_args_flags sample_ext ''xz'' None 2 [Some ''xz'', Some ''-9'', None] (init_state 2 1000 4) =
     Inr ((init_state 2 1000 4)\<lparr> preset_number := 9, preset_default := False \<rparr>)
   \<and> filter_count ((init_state 2 1000 4 :: nat state)\<lparr> preset_number := 9, preset_default := False \<rparr>) = 0
   \<and> lzma_lzma_preset sample_ext 9 = Some 9
   \<and> environment_flags sample_ext ''xz'' None @
         fst (getopt_long sample_ext 2 [Some ''xz'', Some ''-9'', None]) = [(code CHR ''9'', None)]
   \<and> is_preset_flag (code CHR ''9'')
   \<and> (\<exists>s2. default_chain sample_ext
               (parse_args_adjust ((init_state 2 1000 4)\<lparr> preset_number := 9, preset_default := False \<rparr>)) =
             Inr s2
           \<and> chain (terminate_chain s2) = [(LZMA_FILTER_LZMA2, Some 9)]
           \<and> \<not> preset_default (terminate_chain s2))"
proof -
  let ?s1 = "(init_state 2 1000 4 :: nat state)\<lparr> preset_number := 9, preset_default := False \<rparr>"
  have run: "parse_args_flags sample_ext ''xz'' None 2 [Some ''xz'', Some ''-9'', None]
      (init_state 2 1000 4) = Inr ?s1"
    by (simp add: run_defs id_defs sample_defs)
  have fc: "filter_count ?s1 = 0"
    by (simp add: init_state_def)
  have p: "lzma_lzma_preset sample_ext (preset_number ?s1) = Some 9" "lzma_lzma_preset sample_ext 9 = Some 9"
    by (simp_all add: sample_ext_def)
  have flags: "environment_flags sample_ext ''xz'' None @
         fst (getopt_long sample_ext 2 [Some ''xz'', Some ''-9'', None]) = [(code CHR ''9'', None)]"
    by (simp add: run_defs id_defs sample_defs)
  have kind: "is_preset_flag (code CHR ''9'')"
    by (simp add: is_preset_flag_def code_def)
  have fmt: "opt_format (parse_args_adjust ?s1) \<noteq> FORMAT_LZMA"
    by (simp add: parse_args_adjust_def init_state_def)
  from default_chain_of_preset [OF run fc p(1)] obtain s2 where
    "default_chain sample_ext (parse_args_adjust ?s1) = Inr s2"
    "chain (terminate_chain s2) =
       [(if opt_format (parse_args_adjust ?s1) = FORMAT_LZMA then LZMA_FILTER_LZMA1
         else LZMA_FILTER_LZMA2, Some 9)]"
    "preset_default (terminate_chain s2) \<longleftrightarrow>
       (\<forall>x\<in>set (environment_flags sample_ext ''xz'' None @
                 fst (getopt_long sample_ext 2 [Some ''xz'', Some ''-9'', None])).
          \<not> is_preset_flag (fst x) \<and> \<not> is_filter_flag (fst x))"
    by blast
  with fmt flags kind have "\<exists>s2. default_chain sample_ext (parse_args_adjust ?s1) = Inr s2
           \<and> chain (terminate_chain s2) = [(LZMA_FILTER_LZMA2, Some 9)]
           \<and> \<not> preset_default (terminate_chain s2)"
    by auto
  with run fc p(2) flags kind show ?thesis
    by blast
qed

end
